theory Spec2Isabelle
  imports Main "HOL-Library.Word"
begin

section \<open>Time constants\<close>

text \<open>
  The module-level constants of both source files (the leading underscore of the Python
  names is dropped).
\<close>

definition SECS_IN_MIN :: int where
  "SECS_IN_MIN = 60"

definition MINS_IN_HOUR :: int where
  "MINS_IN_HOUR = 60"

definition SECS_IN_HOUR :: int where
  "SECS_IN_HOUR = MINS_IN_HOUR * SECS_IN_MIN"

definition HOURS_IN_DAY :: int where
  "HOURS_IN_DAY = 24"

definition SECS_IN_DAY :: int where
  "SECS_IN_DAY = SECS_IN_HOUR * HOURS_IN_DAY"

definition DAYS_IN_WEEK :: int where
  "DAYS_IN_WEEK = 7"

definition DEFAULT_TIMEOUT :: int where
  "DEFAULT_TIMEOUT = 15 * SECS_IN_MIN"

section \<open>Dates and timestamps\<close>

text \<open>
  A \<open>datetime.date\<close> is its year, month and day; a \<open>datetime.datetime\<close> is a date with
  hour, minute and second. Dates compare by (year, month, day), as in Python.
\<close>

datatype date = Date (year: int) (month: int) (day: int)

record datetime =
  dt_date :: date
  hour :: int
  minute :: int
  second :: int

fun date_lt :: "date \<Rightarrow> date \<Rightarrow> bool" where
  "date_lt (Date y1 m1 d1) (Date y2 m2 d2) =
     (y1 < y2 \<or> (y1 = y2 \<and> (m1 < m2 \<or> (m1 = m2 \<and> d1 < d2))))"

text \<open>
  \<open>date.weekday()\<close> of the standard library: the proleptic Gregorian ordinal of the date,
  plus 6, modulo 7 (Monday is 0).
\<close>

definition is_leap :: "int \<Rightarrow> bool" where
  "is_leap y = (y mod 4 = 0 \<and> (y mod 100 \<noteq> 0 \<or> y mod 400 = 0))"

definition days_before_year :: "int \<Rightarrow> int" where
  "days_before_year y = (y - 1) * 365 + (y - 1) div 4 - (y - 1) div 100 + (y - 1) div 400"

definition days_before_month :: "int \<Rightarrow> int \<Rightarrow> int" where
  "days_before_month y m =
     (if 1 \<le> m \<and> m \<le> 12
      then [0, 31, 59, 90, 120, 151, 181, 212, 243, 273, 304, 334] ! nat (m - 1)
      else 0)
     + (if m > 2 \<and> is_leap y then 1 else 0)"

fun toordinal :: "date \<Rightarrow> int" where
  "toordinal (Date y m d) = days_before_year y + days_before_month y m + d"

definition weekday :: "date \<Rightarrow> nat" where
  "weekday d = nat ((toordinal d + 6) mod 7)"

section \<open>Events, durations and the containers that hold them\<close>

text \<open>
  An event is one element of \<open>zip(hb_types, dates, secs_since_midnights)\<close>; a duration is the
  tuple \<open>(hb_type, curr_start, curr_end - curr_start)\<close> that \<open>calc_durations\<close> appends.
\<close>

type_synonym event = "string \<times> date \<times> int"

type_synonym duration = "string \<times> int \<times> int"

text \<open>
  The \<open>durations\<close> dict keeps insertion order, so it is an association list with each key
  at most once. \<open>setdefault_append k v m\<close> is \<open>m.setdefault(k, []).append(v)\<close>.
\<close>

type_synonym 'k durations_dict = "('k \<times> duration list) list"

fun setdefault_append :: "'k \<Rightarrow> 'v \<Rightarrow> ('k \<times> 'v list) list \<Rightarrow> ('k \<times> 'v list) list" where
  "setdefault_append k v [] = [(k, [v])]"
| "setdefault_append k v ((k', vs) # m) =
     (if k' = k then (k', vs @ [v]) # m else (k', vs) # setdefault_append k v m)"

text \<open>\<open>durations_for m k\<close> is \<open>m.get(k, [])\<close>: the list of durations stored under a key.\<close>

definition durations_for :: "'k durations_dict \<Rightarrow> 'k \<Rightarrow> duration list" where
  "durations_for m k = (case map_of m k of None \<Rightarrow> [] | Some ds \<Rightarrow> ds)"

text \<open>
  The index adjustment Python and numpy apply to the bounds of a slice with step 1 over a
  sequence of length \<open>n\<close>: a negative bound counts from the end, and every bound is clipped
  to \<open>0..n\<close>.
\<close>

definition adjust_index :: "int \<Rightarrow> nat \<Rightarrow> nat" where
  "adjust_index i n =
     (if i < 0 then (if i + int n < 0 then 0 else nat (i + int n))
      else (if i \<ge> int n then n else nat i))"

text \<open>\<open>slice_add_one row start stop\<close> is \<open>row[start:stop] += 1\<close> on a numpy row.\<close>

definition slice_add_one :: "'a::{plus,one} list \<Rightarrow> int \<Rightarrow> int \<Rightarrow> 'a list" where
  "slice_add_one row start stop =
     (let lo = adjust_index start (length row);
          hi = adjust_index stop (length row)
      in take lo row @ map (\<lambda>x. x + 1) (take (hi - lo) (drop lo row)) @ drop (max lo hi) row)"

text \<open>\<open>zeros rows cols\<close> is \<open>numpy.zeros((rows, cols))\<close>.\<close>

definition zeros :: "nat \<Rightarrow> nat \<Rightarrow> 'a::zero list list" where
  "zeros rows cols = replicate rows (replicate cols 0)"

section \<open>The class \<open>HeartbeatData\<close>\<close>

text \<open>
  \<open>hb_type_counter\<close>, \<open>hb_types\<close>, \<open>dates\<close> and \<open>secs_since_midnights\<close> are created once, in
  the class body (lines 35-38 of \<open>src/heartbeats_data.py\<close>, 41-44 of
  \<open>src/HeartbeatsData/heartbeats_data.py\<close>). No method assigns one of these attributes on
  \<open>self\<close>: \<open>add_hb\<close> only calls \<open>append\<close> and item assignment on the object the attribute
  lookup finds, which is the class's. They are therefore one record per class.
  \<open>durations\<close> and \<open>duration_counts\<close> are assigned on \<open>self\<close> (\<open>self.durations = {}\<close>), which
  creates instance attributes: there is one record of them per instance, and \<open>None\<close> is the
  class-level default that an instance sees before the first assignment.
  A world is the class's record together with the record of every instance.
\<close>

record heartbeat_class =
  hb_type_counter :: "string \<Rightarrow> nat"
  hb_types :: "string list"
  dates :: "date list"
  secs_since_midnights :: "int list"

record ('k, 'c) heartbeat_attrs =
  durations :: "'k durations_dict option"
  duration_counts :: "'c list list option"

record ('k, 'c) world =
  class_attrs :: heartbeat_class
  instance_attrs :: "nat \<Rightarrow> ('k, 'c) heartbeat_attrs"

text \<open>
  In \<open>src/heartbeats_data.py\<close> the loop variable \<open>curr_date\<close> starts as \<open>None\<close> and is used as
  the dict key, so the keys are optional dates; the matrix is a float64 array whose cells
  only ever receive \<open>+= 1\<close>, which is exact on every count a list of events can reach, so
  its cells are integers. In \<open>src/HeartbeatsData/heartbeats_data.py\<close> the keys are dates and
  the cells are \<open>numpy.int16\<close>, which wrap.
\<close>

type_synonym world_top = "(date option, int) world"

type_synonym world_pkg = "(date, 16 word) world"

definition new_world :: "('k, 'c) world" where
  "new_world =
     \<lparr>class_attrs = \<lparr>hb_type_counter = (\<lambda>_. 0), hb_types = [], dates = [],
                      secs_since_midnights = []\<rparr>,
      instance_attrs = (\<lambda>_. \<lparr>durations = None, duration_counts = None\<rparr>)\<rparr>"

text \<open>\<open>add_hb\<close> is the same in both files.\<close>

definition add_hb :: "nat \<Rightarrow> string \<Rightarrow> datetime \<Rightarrow> ('k, 'c) world \<Rightarrow> ('k, 'c) world" where
  "add_hb self hb_type timestamp w =
     (let cls = class_attrs w;
          cls1 = (if hb_type = [] then cls
                  else cls\<lparr>hb_type_counter :=
                             (hb_type_counter cls)(hb_type := hb_type_counter cls hb_type + 1)\<rparr>);
          hb_type1 = (if hb_type = [] then ''Other'' else hb_type)
      in w\<lparr>class_attrs :=
             cls1\<lparr>hb_types := hb_types cls1 @ [hb_type1],
                   dates := dates cls1 @ [dt_date timestamp],
                   secs_since_midnights := secs_since_midnights cls1 @
                     [hour timestamp * SECS_IN_HOUR + minute timestamp * SECS_IN_MIN
                      + second timestamp]\<rparr>\<rparr>)"

text \<open>\<open>zip(self.hb_types, self.dates, self.secs_since_midnights)\<close>.\<close>

definition heartbeats :: "('k, 'c) world \<Rightarrow> event list" where
  "heartbeats w =
     zip (hb_types (class_attrs w))
         (zip (dates (class_attrs w)) (secs_since_midnights (class_attrs w)))"

definition set_durations ::
  "nat \<Rightarrow> 'k durations_dict \<Rightarrow> ('k, 'c) world \<Rightarrow> ('k, 'c) world" where
  "set_durations self m w =
     w\<lparr>instance_attrs := (instance_attrs w)(self := (instance_attrs w self)\<lparr>durations := Some m\<rparr>)\<rparr>"

definition set_duration_counts ::
  "nat \<Rightarrow> 'c list list \<Rightarrow> ('k, 'c) world \<Rightarrow> ('k, 'c) world" where
  "set_duration_counts self m w =
     w\<lparr>instance_attrs :=
         (instance_attrs w)(self := (instance_attrs w self)\<lparr>duration_counts := Some m\<rparr>)\<rparr>"

definition self_durations :: "nat \<Rightarrow> ('k, 'c) world \<Rightarrow> 'k durations_dict option" where
  "self_durations self w = durations (instance_attrs w self)"

definition self_duration_counts :: "nat \<Rightarrow> ('k, 'c) world \<Rightarrow> 'c list list option" where
  "self_duration_counts self w = duration_counts (instance_attrs w self)"

subsection \<open>\<open>calc_durations\<close>, \<open>src/heartbeats_data.py\<close>\<close>

text \<open>
  The loop state is \<open>((curr_hb_type, curr_date, curr_start, curr_end), durations)\<close>; one
  call of the step function is one iteration of the \<open>for\<close> loop.
\<close>

type_synonym locals_top = "string option \<times> date option \<times> int \<times> int"

fun durations_step_top ::
  "int \<Rightarrow> locals_top \<times> date option durations_dict \<Rightarrow> event
   \<Rightarrow> locals_top \<times> date option durations_dict" where
  "durations_step_top timeout ((curr_hb_type, curr_date, curr_start, curr_end), durs)
       (hb_type, date, secs_since_midnight) =
     (if Some hb_type \<noteq> curr_hb_type \<or> Some date \<noteq> curr_date
         \<or> secs_since_midnight > curr_end + timeout
      then ((Some hb_type, Some date, secs_since_midnight, secs_since_midnight),
            (case curr_hb_type of
               None \<Rightarrow> durs
             | Some t \<Rightarrow> setdefault_append curr_date (t, curr_start, curr_end - curr_start) durs))
      else ((curr_hb_type, curr_date, curr_start, secs_since_midnight), durs))"

definition calc_durations_top :: "nat \<Rightarrow> int \<Rightarrow> world_top \<Rightarrow> world_top" where
  "calc_durations_top self timeout w =
     set_durations self
       (snd (foldl (durations_step_top timeout) ((None, None, 0, 0), []) (heartbeats w))) w"

subsection \<open>\<open>calc_durations\<close>, \<open>src/HeartbeatsData/heartbeats_data.py\<close>\<close>

text \<open>
  \<open>next(heartbeats)\<close> on an exhausted iterator raises \<open>StopIteration\<close>; at that point
  \<open>self.durations = {}\<close> has already run. The method returns the exception, if any, and
  the world it leaves.
\<close>

datatype py_error = StopIteration

type_synonym locals_pkg = "string \<times> date \<times> int \<times> int"

fun durations_step_pkg ::
  "int \<Rightarrow> locals_pkg \<times> date durations_dict \<Rightarrow> event \<Rightarrow> locals_pkg \<times> date durations_dict" where
  "durations_step_pkg timeout ((curr_hb_type, curr_date, curr_start, curr_end), durs)
       (hb_type, hb_date, secs_since_midnight) =
     (if hb_type \<noteq> curr_hb_type \<or> hb_date \<noteq> curr_date
         \<or> secs_since_midnight > curr_end + timeout
      then ((hb_type, hb_date, secs_since_midnight, secs_since_midnight),
            setdefault_append curr_date (curr_hb_type, curr_start, curr_end - curr_start) durs)
      else ((curr_hb_type, curr_date, curr_start, secs_since_midnight), durs))"

definition calc_durations_pkg :: "nat \<Rightarrow> int \<Rightarrow> world_pkg \<Rightarrow> py_error option \<times> world_pkg" where
  "calc_durations_pkg self timeout w =
     (case heartbeats w of
        [] \<Rightarrow> (Some StopIteration, set_durations self [] w)
      | (hb_type, hb_date, secs) # rest \<Rightarrow>
          (None,
           set_durations self
             (snd (foldl (durations_step_pkg timeout) ((hb_type, hb_date, secs, secs), []) rest))
             w))"

subsection \<open>\<open>calc_duration_counts\<close>, \<open>src/heartbeats_data.py\<close>\<close>

text \<open>
  The loop state is \<open>((curr_date, curr_start, curr_end), duration_counts)\<close>.
  \<open>row_slice_add_one m r start stop\<close> is \<open>m[r, start:stop] += 1\<close>.
\<close>

definition row_slice_add_one :: "'a::{plus,one} list list \<Rightarrow> nat \<Rightarrow> int \<Rightarrow> int \<Rightarrow> 'a list list" where
  "row_slice_add_one m r start stop = m[r := slice_add_one (m ! r) start stop]"

fun counts_step_top ::
  "int \<Rightarrow> (date option \<times> int \<times> int) \<times> int list list \<Rightarrow> event
   \<Rightarrow> (date option \<times> int \<times> int) \<times> int list list" where
  "counts_step_top timeout ((curr_date, curr_start, curr_end), counts)
       (hb_type, date, secs_since_midnight) =
     (if Some date \<noteq> curr_date \<or> secs_since_midnight > curr_end + timeout
      then ((Some date, secs_since_midnight, secs_since_midnight),
            (case curr_date of
               None \<Rightarrow> counts
             | Some d \<Rightarrow> row_slice_add_one counts (weekday d) curr_start (curr_end + 1)))
      else ((curr_date, curr_start, secs_since_midnight), counts))"

definition calc_duration_counts_top :: "nat \<Rightarrow> int \<Rightarrow> world_top \<Rightarrow> world_top" where
  "calc_duration_counts_top self timeout w =
     set_duration_counts self
       (snd (foldl (counts_step_top timeout)
               ((None, 0, 0), zeros (nat DAYS_IN_WEEK) (nat (SECS_IN_DAY - 1)))
               (heartbeats w))) w"

subsection \<open>\<open>calc_duration_counts\<close>, \<open>src/HeartbeatsData/heartbeats_data.py\<close>\<close>

fun counts_step_pkg ::
  "int \<Rightarrow> (date \<times> int \<times> int) \<times> 16 word list list \<Rightarrow> event
   \<Rightarrow> (date \<times> int \<times> int) \<times> 16 word list list" where
  "counts_step_pkg timeout ((curr_date, curr_start, curr_end), counts)
       (hb_type, hb_date, secs_since_midnight) =
     (if hb_date \<noteq> curr_date \<or> secs_since_midnight > curr_end + timeout
      then ((hb_date, secs_since_midnight, secs_since_midnight),
            row_slice_add_one counts (weekday curr_date) curr_start (curr_end + 1))
      else ((curr_date, curr_start, secs_since_midnight), counts))"

definition calc_duration_counts_pkg ::
  "nat \<Rightarrow> int \<Rightarrow> world_pkg \<Rightarrow> py_error option \<times> world_pkg" where
  "calc_duration_counts_pkg self timeout w =
     (let z = zeros (nat DAYS_IN_WEEK) (nat (SECS_IN_DAY - 1)) in
      case heartbeats w of
        [] \<Rightarrow> (Some StopIteration, set_duration_counts self z w)
      | (hb_type, hb_date, secs) # rest \<Rightarrow>
          (None,
           set_duration_counts self
             (snd (foldl (counts_step_pkg timeout) ((hb_date, secs, secs), z) rest)) w))"

section \<open>Runs, as the specification describes them\<close>

text \<open>
  A run is a maximal merge of consecutive events of the same category and date whose
  gaps are all at most the timeout; it is written \<open>(category, date, start, end)\<close>.
  \<open>merge_runs\<close> builds the runs of a stream from its end, independently of the loops
  above. \<open>occupancy_runs\<close> is the same with the category ignored, \<open>(date, start, end)\<close>.
\<close>

type_synonym run = "string \<times> date \<times> int \<times> int"

fun merge_runs :: "int \<Rightarrow> event list \<Rightarrow> run list" where
  "merge_runs t [] = []"
| "merge_runs t [(c, d, s)] = [(c, d, s, s)]"
| "merge_runs t ((c, d, s) # (c', d', s') # es) =
     (if c' = c \<and> d' = d \<and> s' \<le> s + t
      then (case merge_runs t ((c', d', s') # es) of
              [] \<Rightarrow> [(c, d, s, s)]
            | (_, _, _, e) # rs \<Rightarrow> (c, d, s, e) # rs)
      else (c, d, s, s) # merge_runs t ((c', d', s') # es))"

fun occupancy_runs :: "int \<Rightarrow> event list \<Rightarrow> (date \<times> int \<times> int) list" where
  "occupancy_runs t [] = []"
| "occupancy_runs t [(c, d, s)] = [(d, s, s)]"
| "occupancy_runs t ((c, d, s) # (c', d', s') # es) =
     (if d' = d \<and> s' \<le> s + t
      then (case occupancy_runs t ((c', d', s') # es) of
              [] \<Rightarrow> [(d, s, s)]
            | (_, _, e) # rs \<Rightarrow> (d, s, e) # rs)
      else (d, s, s) # occupancy_runs t ((c', d', s') # es))"

text \<open>The dict that holds the given runs, appended in order under their dates.\<close>

fun append_run :: "date durations_dict \<Rightarrow> run \<Rightarrow> date durations_dict" where
  "append_run m (c, d, s, e) = setdefault_append d (c, s, e - s) m"

definition dict_of_runs :: "run list \<Rightarrow> date durations_dict" where
  "dict_of_runs rs = foldl append_run [] rs"

text \<open>The same dict with every key \<open>d\<close> written \<open>Some d\<close>.\<close>

definition some_keys :: "date durations_dict \<Rightarrow> date option durations_dict" where
  "some_keys m = map (\<lambda>(d, ds). (Some d, ds)) m"

text \<open>The sum of the inclusive lengths \<open>end - start + 1\<close> of runs.\<close>

definition inclusive_length_sum :: "(date \<times> int \<times> int) list \<Rightarrow> int" where
  "inclusive_length_sum rs = sum_list (map (\<lambda>(d, s, e). e - s + 1) rs)"

text \<open>The sum of all cells of a matrix.\<close>

definition matrix_sum :: "int list list \<Rightarrow> int" where
  "matrix_sum m = sum_list (map sum_list m)"

definition matrix_sum16 :: "16 word list list \<Rightarrow> int" where
  "matrix_sum16 m = sum_list (map (\<lambda>row. sum_list (map sint row)) m)"

section \<open>Properties of streams and of duration lists\<close>

text \<open>A stream is chronological when its (date, second) pairs are non-decreasing.\<close>

fun event_le :: "event \<Rightarrow> event \<Rightarrow> bool" where
  "event_le (c1, d1, s1) (c2, d2, s2) = (date_lt d1 d2 \<or> (d1 = d2 \<and> s1 \<le> s2))"

fun chronological :: "event list \<Rightarrow> bool" where
  "chronological [] = True"
| "chronological [e] = True"
| "chronological (e1 # e2 # es) = (event_le e1 e2 \<and> chronological (e2 # es))"

definition starts_sorted :: "duration list \<Rightarrow> bool" where
  "starts_sorted ds = sorted (map (\<lambda>(c, s, l). s) ds)"

text \<open>
  Two durations overlap when their inclusive intervals \<open>[start, start + length]\<close> share a
  second.
\<close>

fun intervals_overlap :: "duration \<Rightarrow> duration \<Rightarrow> bool" where
  "intervals_overlap (c1, s1, l1) (c2, s2, l2) = (s1 \<le> s2 + l2 \<and> s2 \<le> s1 + l1)"

definition non_overlapping :: "duration list \<Rightarrow> bool" where
  "non_overlapping ds = sorted_wrt (\<lambda>x y. \<not> intervals_overlap x y) ds"

text \<open>Every duration ends no later than each duration after it in the list starts.\<close>

fun ends_by_start :: "duration \<Rightarrow> duration \<Rightarrow> bool" where
  "ends_by_start (c1, s1, l1) (c2, s2, l2) = (s1 + l1 \<le> s2)"

definition end_to_start :: "duration list \<Rightarrow> bool" where
  "end_to_start ds = sorted_wrt ends_by_start ds"

text \<open>
  The number of durations stored under a key once the method has run (0 when the
  attribute is still \<open>None\<close>).
\<close>

definition stored_durations :: "nat \<Rightarrow> ('k, 'c) world \<Rightarrow> 'k \<Rightarrow> duration list" where
  "stored_durations self w k =
     (case self_durations self w of None \<Rightarrow> [] | Some m \<Rightarrow> durations_for m k)"

definition duration_count :: "nat \<Rightarrow> ('k, 'c) world \<Rightarrow> 'k \<Rightarrow> nat" where
  "duration_count self w k =
     (case self_durations self w of None \<Rightarrow> 0 | Some m \<Rightarrow> length (durations_for m k))"

text \<open>
  The number of places in a stream where an event of date \<open>d\<close> is followed by an event
  that does not continue its run.
\<close>

fun closes :: "int \<Rightarrow> date \<Rightarrow> event list \<Rightarrow> nat" where
  "closes t d [] = 0"
| "closes t d [e] = 0"
| "closes t d ((c1, d1, s1) # (c2, d2, s2) # es) =
     (if d1 = d \<and> \<not> (c2 = c1 \<and> d2 = d1 \<and> s2 \<le> s1 + t) then 1 else 0)
     + closes t d ((c2, d2, s2) # es)"

text \<open>A run lies before another: on an earlier date, or on the same date and ended by its start.\<close>

fun run_before :: "run \<Rightarrow> run \<Rightarrow> bool" where
  "run_before (c1, d1, s1, e1) (c2, d2, s2, e2) = (date_lt d1 d2 \<or> (d1 = d2 \<and> e1 \<le> s2))"

text \<open>A run starts no earlier than an event, and ends no earlier than it starts.\<close>

fun run_from :: "event \<Rightarrow> run \<Rightarrow> bool" where
  "run_from (c, d, s) (c', d', s', e') = ((date_lt d d' \<or> (d = d' \<and> s \<le> s')) \<and> s' \<le> e')"

fun run_date :: "run \<Rightarrow> date" where
  "run_date (c, d, s, e) = d"

fun run_duration :: "run \<Rightarrow> duration" where
  "run_duration (c, d, s, e) = (c, s, e - s)"

text \<open>
  Counting one closed run into the matrix, and the matrix that holds the given runs.
\<close>

fun count_run :: "'a::{plus,one} list list \<Rightarrow> date \<times> int \<times> int \<Rightarrow> 'a list list" where
  "count_run m (d, s, e) = row_slice_add_one m (weekday d) s (e + 1)"

definition matrix_of_runs :: "(date \<times> int \<times> int) list \<Rightarrow> 'a::{zero,plus,one} list list" where
  "matrix_of_runs rs = foldl count_run (zeros (nat DAYS_IN_WEEK) (nat (SECS_IN_DAY - 1))) rs"

fun restart_occ :: "int \<Rightarrow> (date \<times> int \<times> int) list \<Rightarrow> (date \<times> int \<times> int) list" where
  "restart_occ s [] = []"
| "restart_occ s ((d, _, e) # rs) = (d, s, e) # rs"

text \<open>Replacing the start of the first run of a list; used to relate the loops to the runs.\<close>

fun restart :: "int \<Rightarrow> run list \<Rightarrow> run list" where
  "restart s [] = []"
| "restart s ((c, d, _, e) # rs) = (c, d, s, e) # rs"

text \<open>\<open>datetime(y, m, d, h, mi, s)\<close>.\<close>

definition mk_datetime :: "int \<Rightarrow> int \<Rightarrow> int \<Rightarrow> int \<Rightarrow> int \<Rightarrow> int \<Rightarrow> datetime" where
  "mk_datetime y m d h mi s = \<lparr>dt_date = Date y m d, hour = h, minute = mi, second = s\<rparr>"

text \<open>
  Concrete worlds. \<open>scenario_A\<close> is the specification's scenario A; \<open>sample_world\<close> has
  five events on two days, with a category change at an unchanged second.
\<close>

definition scenario_A :: "('k, 'c) world" where
  "scenario_A =
     add_hb 0 ''A'' (mk_datetime 2024 1 1 9 10 0)
       (add_hb 0 ''A'' (mk_datetime 2024 1 1 9 0 0) new_world)"

definition sample_world :: "('k, 'c) world" where
  "sample_world =
     add_hb 1 ''B'' (mk_datetime 2024 1 2 0 0 0)
       (add_hb 0 ''B'' (mk_datetime 2024 1 1 9 40 0)
         (add_hb 1 ''B'' (mk_datetime 2024 1 1 9 10 0) scenario_A))"

text \<open>Two events around midnight: 23:59:59 on 2024-01-01, then 00:00:00 on 2024-01-02.\<close>

definition midnight_world :: "('k, 'c) world" where
  "midnight_world =
     add_hb 0 ''A'' (mk_datetime 2024 1 2 0 0 0)
       (add_hb 0 ''A'' (mk_datetime 2024 1 1 23 59 59) new_world)"

text \<open>
  The three lists have the same length, as they do after any number of \<open>add_hb\<close> calls;
  \<open>new_event\<close> is the event one \<open>add_hb\<close> call appends.
\<close>

definition well_formed :: "('k, 'c) world \<Rightarrow> bool" where
  "well_formed w =
     (length (hb_types (class_attrs w)) = length (dates (class_attrs w))
      \<and> length (dates (class_attrs w)) = length (secs_since_midnights (class_attrs w)))"

definition new_event :: "string \<Rightarrow> datetime \<Rightarrow> event" where
  "new_event hb_type timestamp =
     (if hb_type = [] then ''Other'' else hb_type, dt_date timestamp,
      hour timestamp * SECS_IN_HOUR + minute timestamp * SECS_IN_MIN + second timestamp)"

definition single_world :: "('k, 'c) world" where
  "single_world = add_hb 0 [] (mk_datetime 2024 1 1 9 0 0) new_world"

section \<open>The constants and the concrete worlds, evaluated\<close>

lemma SECS_IN_HOUR_eq: "SECS_IN_HOUR = 3600"
  by (simp add: SECS_IN_HOUR_def MINS_IN_HOUR_def SECS_IN_MIN_def)

lemma SECS_IN_DAY_eq: "SECS_IN_DAY = 86400"
  by (simp add: SECS_IN_DAY_def SECS_IN_HOUR_eq HOURS_IN_DAY_def)

lemma heartbeats_new_world: "heartbeats new_world = []"
  by (simp add: heartbeats_def new_world_def)

lemma heartbeats_scenario_A:
  "heartbeats scenario_A = [(''A'', Date 2024 1 1, 32400), (''A'', Date 2024 1 1, 33000)]"
  by (simp add: heartbeats_def scenario_A_def add_hb_def new_world_def mk_datetime_def
        SECS_IN_HOUR_eq SECS_IN_MIN_def)

lemma heartbeats_single_world:
  "heartbeats single_world = [(''Other'', Date 2024 1 1, 32400)]"
  by (simp add: heartbeats_def single_world_def add_hb_def new_world_def mk_datetime_def
        SECS_IN_HOUR_eq SECS_IN_MIN_def)

lemma heartbeats_sample_world:
  "heartbeats sample_world =
     [(''A'', Date 2024 1 1, 32400), (''A'', Date 2024 1 1, 33000),
      (''B'', Date 2024 1 1, 33000), (''B'', Date 2024 1 1, 34800),
      (''B'', Date 2024 1 2, 0)]"
  by (simp add: heartbeats_def sample_world_def scenario_A_def add_hb_def new_world_def
        mk_datetime_def SECS_IN_HOUR_eq SECS_IN_MIN_def)

section \<open>The dict operations\<close>

lemma durations_for_setdefault_append:
  "durations_for (setdefault_append k v m) k' = durations_for m k' @ (if k = k' then [v] else [])"
  by (induction m) (auto simp: durations_for_def)

lemma some_keys_setdefault_append:
  "some_keys (setdefault_append d v m) = setdefault_append (Some d) v (some_keys m)"
  by (induction m) (auto simp: some_keys_def)

lemma durations_for_some_keys: "durations_for (some_keys m) (Some d) = durations_for m d"
  by (induction m) (auto simp: some_keys_def durations_for_def)

lemma durations_for_some_keys_None: "durations_for (some_keys m) None = []"
  by (induction m) (auto simp: some_keys_def durations_for_def)

lemma merge_runs_hd: "\<exists>e rs. merge_runs t ((c, d, s) # es) = (c, d, s, e) # rs"
  by (induction t "(c, d, s) # es" arbitrary: c d s es rule: merge_runs.induct)
     (auto split: list.splits)

lemma restart_merge_runs: "restart s (merge_runs t ((c, d, s) # es)) = merge_runs t ((c, d, s) # es)"
  using merge_runs_hd[of t c d s es] by auto

lemma restart_restart: "restart s (restart s' rs) = restart s rs"
  by (cases rs) auto

lemma merge_runs_continue:
  "c' = c \<Longrightarrow> d' = d \<Longrightarrow> s' \<le> s + t \<Longrightarrow>
   merge_runs t ((c, d, s) # (c', d', s') # es) = restart s (merge_runs t ((c', d', s') # es))"
  using merge_runs_hd[of t c' d' s' es] by auto

lemma merge_runs_break:
  "\<not> (c' = c \<and> d' = d \<and> s' \<le> s + t) \<Longrightarrow>
   merge_runs t ((c, d, s) # (c', d', s') # es) = (c, d, s, s) # merge_runs t ((c', d', s') # es)"
  by auto

lemma merge_runs_nonempty: "merge_runs t (ev # es) \<noteq> []"
  using merge_runs_hd[of t "fst ev" "fst (snd ev)" "snd (snd ev)" es] by auto

lemma durations_loop_pkg_runs:
  "snd (foldl (durations_step_pkg t) ((c, d, s, e), m) evs)
   = foldl append_run m (butlast (restart s (merge_runs t ((c, d, e) # evs))))"
proof (induction evs arbitrary: c d s e m)
  case Nil
  show ?case by simp
next
  case (Cons ev evs)
  obtain h hd sec where ev: "ev = (h, hd, sec)" by (cases ev) auto
  show ?case
  proof (cases "h = c \<and> hd = d \<and> sec \<le> e + t")
    case True
    then have "merge_runs t ((c, d, e) # ev # evs) = restart e (merge_runs t ((c, d, sec) # evs))"
      unfolding ev using merge_runs_continue[of c c d d sec e t evs] by simp
    then show ?thesis using True Cons.IH[of c d s sec m]
      by (simp add: ev restart_restart)
  next
    case False
    then have mr: "merge_runs t ((c, d, e) # ev # evs) = (c, d, e, e) # merge_runs t ((h, hd, sec) # evs)"
      unfolding ev using merge_runs_break[of h c hd d sec e t evs] by simp
    have ne: "merge_runs t ((h, hd, sec) # evs) \<noteq> []" by (rule merge_runs_nonempty)
    from False have st: "durations_step_pkg t ((c, d, s, e), m) ev
        = ((h, hd, sec, sec), setdefault_append d (c, s, e - s) m)"
      unfolding ev by auto
    show ?thesis using Cons.IH[of h hd sec sec "setdefault_append d (c, s, e - s) m"] ne
      by (simp add: st mr restart_merge_runs)
  qed
qed

lemma durations_loop_top_pkg:
  "foldl (durations_step_top t) ((Some c, Some d, s, e), some_keys m) evs
   = (case foldl (durations_step_pkg t) ((c, d, s, e), m) evs of
        ((c', d', s', e'), m') \<Rightarrow> ((Some c', Some d', s', e'), some_keys m'))"
proof (induction evs arbitrary: c d s e m)
  case Nil
  show ?case by simp
next
  case (Cons ev evs)
  obtain h hd sec where ev: "ev = (h, hd, sec)" by (cases ev) auto
  show ?case
  proof (cases "h = c \<and> hd = d \<and> sec \<le> e + t")
    case True
    then show ?thesis using Cons.IH[of c d s sec m] by (simp add: ev)
  next
    case False
    then have 1: "durations_step_pkg t ((c, d, s, e), m) ev
        = ((h, hd, sec, sec), setdefault_append d (c, s, e - s) m)"
      unfolding ev by auto
    from False have 2: "durations_step_top t ((Some c, Some d, s, e), some_keys m) ev
        = ((Some h, Some hd, sec, sec), some_keys (setdefault_append d (c, s, e - s) m))"
      unfolding ev by (auto simp: some_keys_setdefault_append)
    show ?thesis using Cons.IH[of h hd sec sec "setdefault_append d (c, s, e - s) m"]
      by (simp add: 1 2)
  qed
qed

lemma durations_top_first:
  "foldl (durations_step_top t) ((None, None, 0, 0), []) ((c, d, s) # evs)
   = foldl (durations_step_top t) ((Some c, Some d, s, s), some_keys []) evs"
  by (simp add: some_keys_def)

lemma self_durations_set_durations [simp]:
  "self_durations i (set_durations i m w) = Some m"
  by (simp add: self_durations_def set_durations_def)

lemma durations_pkg_runs:
  assumes "heartbeats w \<noteq> []"
  shows "calc_durations_pkg i t w
         = (None, set_durations i (dict_of_runs (butlast (merge_runs t (heartbeats w)))) w)"
proof -
  obtain c d s rest where hb: "heartbeats w = (c, d, s) # rest"
    using assms by (cases "heartbeats w") auto
  show ?thesis
    by (simp add: calc_durations_pkg_def hb durations_loop_pkg_runs restart_merge_runs
          dict_of_runs_def)
qed

lemma durations_top_runs:
  "calc_durations_top i t w
   = set_durations i (some_keys (dict_of_runs (butlast (merge_runs t (heartbeats w))))) w"
proof (cases "heartbeats w")
  case Nil
  then show ?thesis
    by (simp add: calc_durations_top_def dict_of_runs_def some_keys_def)
next
  case (Cons ev rest)
  obtain c d s where ev: "ev = (c, d, s)" by (cases ev) auto
  have "snd (foldl (durations_step_top t) ((None, None, 0, 0), []) (heartbeats w))
        = some_keys (snd (foldl (durations_step_pkg t) ((c, d, s, s), []) rest))"
    unfolding Cons ev durations_top_first durations_loop_top_pkg
    by (simp split: prod.splits)
  then show ?thesis
    by (simp add: calc_durations_top_def durations_loop_pkg_runs restart_merge_runs
          dict_of_runs_def Cons ev)
qed

lemma heartbeats_set_durations [simp]: "heartbeats (set_durations i m w) = heartbeats w"
  by (simp add: heartbeats_def set_durations_def)

lemma heartbeats_add_hb_next_day:
  "heartbeats (add_hb 0 ''A'' (mk_datetime 2024 1 2 9 0 0) scenario_A) =
   [(''A'', Date 2024 1 1, 32400), (''A'', Date 2024 1 1, 33000), (''A'', Date 2024 1 2, 32400)]"
  by (simp add: heartbeats_def scenario_A_def add_hb_def new_world_def mk_datetime_def
        SECS_IN_HOUR_eq SECS_IN_MIN_def)

lemma merge_runs_sample_900:
  "merge_runs 900 (heartbeats sample_world) =
     [(''A'', Date 2024 1 1, 32400, 33000), (''B'', Date 2024 1 1, 33000, 33000),
      (''B'', Date 2024 1 1, 34800, 34800), (''B'', Date 2024 1 2, 0, 0)]"
  by (simp add: heartbeats_sample_world)

section \<open>Scenario A\<close>

text \<open>
  C1, as stated: for the events \<open>("A", 2024-01-01 09:00:00)\<close>, \<open>("A", 2024-01-01 09:10:00)\<close>
  and timeout 900, \<open>calc_durations\<close> produces a mapping with exactly the duration
  \<open>("A", 32400, 600)\<close> under 2024-01-01. It does not, in either file: the only run is
  still open when the loop ends, and nothing appends it.
\<close>

theorem scenario_A_counterexample:
  "self_durations 0 (calc_durations_top 0 900 scenario_A)
     \<noteq> Some [(Some (Date 2024 1 1), [(''A'', 32400, 600)])]
   \<and> self_durations 0 (snd (calc_durations_pkg 0 900 scenario_A))
     \<noteq> Some [(Date 2024 1 1, [(''A'', 32400, 600)])]"
  by (simp add: calc_durations_top_def calc_durations_pkg_def heartbeats_scenario_A)

text \<open>
  C1, amended: for the two events of scenario A and timeout 900, \<open>calc_durations\<close> produces
  an empty mapping in both files; once a later event closes the run (here a third event
  \<open>("A", 2024-01-02 09:00:00)\<close>), the mapping holds exactly the duration
  \<open>("A", 32400, 600)\<close> under 2024-01-01.
\<close>

theorem scenario_A_amended:
  "self_durations 0 (calc_durations_top 0 900 scenario_A) = Some []
   \<and> calc_durations_pkg 0 900 scenario_A = (None, set_durations 0 [] scenario_A)
   \<and> self_durations 0
        (calc_durations_top 0 900 (add_hb 0 ''A'' (mk_datetime 2024 1 2 9 0 0) scenario_A))
       = Some [(Some (Date 2024 1 1), [(''A'', 32400, 600)])]
   \<and> self_durations 0
        (snd (calc_durations_pkg 0 900 (add_hb 0 ''A'' (mk_datetime 2024 1 2 9 0 0) scenario_A)))
       = Some [(Date 2024 1 1, [(''A'', 32400, 600)])]"
  by (simp add: calc_durations_top_def calc_durations_pkg_def heartbeats_scenario_A
        heartbeats_add_hb_next_day)

text \<open>C1, amended, read off at its first conjunct.\<close>

theorem scenario_A_amended_witness:
  "self_durations 0 (calc_durations_top 0 900 (scenario_A :: world_top)) = Some []"
  using scenario_A_amended by (rule conjunct1)

section \<open>The empty store\<close>

text \<open>
  C8: on an empty store \<open>calc_durations\<close> should return normally with an empty mapping.
  \<open>src/heartbeats_data.py\<close> does; \<open>src/HeartbeatsData/heartbeats_data.py\<close> raises
  \<open>StopIteration\<close> from \<open>next(heartbeats)\<close>, after having set \<open>self.durations\<close> to the
  empty mapping.
\<close>

theorem empty_store:
  "self_durations i (calc_durations_top i t new_world) = Some []
   \<and> calc_durations_pkg i t new_world = (Some StopIteration, set_durations i [] new_world)"
  by (simp add: calc_durations_top_def calc_durations_pkg_def heartbeats_new_world)

section \<open>The open run\<close>

text \<open>
  C2: for every non-empty stream and every timeout, the mapping \<open>calc_durations\<close> builds
  holds the runs of the stream except the last one, in order: every run in it was
  closed by a later event, and the run still open when the loop ends is not appended.
  This holds in both files.
\<close>

theorem open_run_never_appended:
  assumes "heartbeats wt \<noteq> []" and "heartbeats wp \<noteq> []"
  shows "self_durations i (calc_durations_top i t wt)
           = Some (some_keys (dict_of_runs (butlast (merge_runs t (heartbeats wt)))))
         \<and> calc_durations_pkg i t wp
           = (None, set_durations i (dict_of_runs (butlast (merge_runs t (heartbeats wp)))) wp)"
  using assms by (simp add: durations_top_runs durations_pkg_runs)

text \<open>
  C2 at the sample world, timeout 900: four runs, of which the first three are in the
  mapping and the last, on 2024-01-02, is not.
\<close>

theorem open_run_never_appended_witness:
  "heartbeats (sample_world :: world_top) \<noteq> [] \<and> heartbeats (sample_world :: world_pkg) \<noteq> []
   \<and> self_durations 0 (calc_durations_top 0 900 sample_world)
       = Some [(Some (Date 2024 1 1), [(''A'', 32400, 600), (''B'', 33000, 0), (''B'', 34800, 0)])]
   \<and> calc_durations_pkg 0 900 sample_world
       = (None, set_durations 0
            [(Date 2024 1 1, [(''A'', 32400, 600), (''B'', 33000, 0), (''B'', 34800, 0)])]
            sample_world)"
proof -
  have 1: "heartbeats (sample_world :: world_top) \<noteq> []"
    and 2: "heartbeats (sample_world :: world_pkg) \<noteq> []"
    by (simp_all add: heartbeats_sample_world)
  show ?thesis
    using open_run_never_appended[OF 1 2, of 0 900] 1 2
    by (simp add: merge_runs_sample_900 dict_of_runs_def some_keys_def)
qed

section \<open>The two files agree on non-empty streams\<close>

text \<open>
  C9: for every non-empty stream and every timeout, \<open>calc_durations\<close> of
  \<open>src/heartbeats_data.py\<close> and of \<open>src/HeartbeatsData/heartbeats_data.py\<close> build the same
  mapping: the same dates in the same order with the same lists (the keys of the first
  are those of the second, written \<open>Some d\<close>), and the second raises nothing. For a
  stream of one event both mappings are empty.
\<close>

theorem calc_durations_top_pkg_agree:
  assumes "heartbeats wt = heartbeats wp" and "heartbeats wp \<noteq> []"
  shows "fst (calc_durations_pkg i t wp) = None
         \<and> self_durations i (calc_durations_top i t wt)
             = map_option some_keys (self_durations i (snd (calc_durations_pkg i t wp)))
         \<and> (length (heartbeats wp) = 1 \<longrightarrow>
              self_durations i (calc_durations_top i t wt) = Some []
              \<and> self_durations i (snd (calc_durations_pkg i t wp)) = Some [])"
proof -
  have single: "butlast (merge_runs t (heartbeats wp)) = []" if "length (heartbeats wp) = 1"
  proof -
    from that obtain c d s where "heartbeats wp = [(c, d, s)]"
      by (cases "heartbeats wp") auto
    then show ?thesis by simp
  qed
  show ?thesis
    using assms single
    by (auto simp: durations_top_runs durations_pkg_runs dict_of_runs_def some_keys_def)
qed

text \<open>
  C9 at a stream of one event (both mappings empty) and at the sample world (the same
  three durations under 2024-01-01 in both).
\<close>

theorem calc_durations_top_pkg_agree_witness:
  "heartbeats (single_world :: world_top) = heartbeats (single_world :: world_pkg)
   \<and> heartbeats (single_world :: world_pkg) \<noteq> []
   \<and> length (heartbeats (single_world :: world_pkg)) = 1
   \<and> self_durations 0 (calc_durations_top 0 900 single_world) = Some []
   \<and> self_durations 0 (snd (calc_durations_pkg 0 900 single_world)) = Some []
   \<and> heartbeats (sample_world :: world_top) = heartbeats (sample_world :: world_pkg)
   \<and> self_durations 0 (calc_durations_top 0 900 sample_world)
       = map_option some_keys (self_durations 0 (snd (calc_durations_pkg 0 900 sample_world)))"
proof -
  have 1: "heartbeats (single_world :: world_top) = heartbeats (single_world :: world_pkg)"
    by (simp add: heartbeats_single_world)
  have 2: "heartbeats (single_world :: world_pkg) \<noteq> []"
    by (simp add: heartbeats_single_world)
  have 3: "length (heartbeats (single_world :: world_pkg)) = 1"
    by (simp add: heartbeats_single_world)
  have 4: "heartbeats (sample_world :: world_top) = heartbeats (sample_world :: world_pkg)"
    by (simp add: heartbeats_sample_world)
  have 5: "heartbeats (sample_world :: world_pkg) \<noteq> []"
    by (simp add: heartbeats_sample_world)
  show ?thesis
    using calc_durations_top_pkg_agree[OF 1 2, of 0 900]
      calc_durations_top_pkg_agree[OF 4 5, of 0 900] 1 2 3 4
    by (simp add: some_keys_def)
qed

section \<open>Counting the durations of a date\<close>

lemma date_lt_irrefl [simp]: "\<not> date_lt d d"
  by (cases d) simp

lemma date_lt_trans: "date_lt a b \<Longrightarrow> date_lt b c \<Longrightarrow> date_lt a c"
  by (cases a; cases b; cases c) auto

lemma durations_for_append_runs:
  "durations_for (foldl append_run m rs) d
   = durations_for m d @ map run_duration (filter (\<lambda>r. run_date r = d) rs)"
proof (induction rs arbitrary: m)
  case Nil
  show ?case by simp
next
  case (Cons r rs)
  obtain c d' s e where r: "r = (c, d', s, e)" by (cases r) auto
  show ?case using Cons.IH[of "append_run m r"]
    by (simp add: r durations_for_setdefault_append)
qed

lemma durations_for_Nil [simp]: "durations_for [] k = []"
  by (simp add: durations_for_def)

lemma durations_for_dict_of_runs:
  "durations_for (dict_of_runs rs) d = map run_duration (filter (\<lambda>r. run_date r = d) rs)"
  by (simp add: dict_of_runs_def durations_for_append_runs)

lemma filter_date_butlast_restart:
  "length (filter (\<lambda>r. run_date r = d) (butlast (restart s rs)))
   = length (filter (\<lambda>r. run_date r = d) (butlast rs))"
  by (cases rs) auto

lemma count_closed_runs:
  "length (filter (\<lambda>r. run_date r = d) (butlast (merge_runs t evs))) = closes t d evs"
proof (induction t evs rule: merge_runs.induct)
  case (1 t)
  show ?case by simp
next
  case (2 t c d s)
  show ?case by simp
next
  case (3 t c d1 s c' d' s' es)
  show ?case
  proof (cases "c' = c \<and> d' = d1 \<and> s' \<le> s + t")
    case True
    then have "merge_runs t ((c, d1, s) # (c', d', s') # es)
               = restart s (merge_runs t ((c', d', s') # es))"
      using merge_runs_continue[of c' c d' d1 s' s t es] by simp
    then show ?thesis using True 3
      by (simp add: filter_date_butlast_restart del: merge_runs.simps)
  next
    case False
    have ne: "merge_runs t ((c', d', s') # es) \<noteq> []" by (rule merge_runs_nonempty)
    from False have "merge_runs t ((c, d1, s) # (c', d', s') # es)
               = (c, d1, s, s) # merge_runs t ((c', d', s') # es)"
      using merge_runs_break[of c' c d' d1 s' s t es] by simp
    then show ?thesis using False 3 ne
      by (auto simp del: merge_runs.simps)
  qed
qed

lemma closes_mono: "t1 \<le> t2 \<Longrightarrow> closes t2 d evs \<le> closes t1 d evs"
  by (induction t1 d evs rule: closes.induct) auto

lemma snd_calc_durations_pkg:
  "snd (calc_durations_pkg i t w)
   = set_durations i (dict_of_runs (butlast (merge_runs t (heartbeats w)))) w"
proof (cases "heartbeats w = []")
  case True
  then show ?thesis by (simp add: calc_durations_pkg_def dict_of_runs_def)
next
  case False
  then show ?thesis by (simp add: durations_pkg_runs)
qed

lemma duration_count_top:
  "duration_count i (calc_durations_top i t w) (Some d) = closes t d (heartbeats w)"
  by (simp add: duration_count_def durations_top_runs durations_for_some_keys
        durations_for_dict_of_runs count_closed_runs)

lemma duration_count_pkg:
  "duration_count i (snd (calc_durations_pkg i t w)) d = closes t d (heartbeats w)"
  by (simp add: duration_count_def snd_calc_durations_pkg
        durations_for_dict_of_runs count_closed_runs)

text \<open>
  C5: for every chronological stream, every date and all timeouts \<open>0 < t1 < t2\<close>, the
  number of durations \<open>calc_durations\<close> stores under the date with timeout \<open>t2\<close> is at most
  the number it stores with \<open>t1\<close>, in both files.
\<close>

theorem longer_timeout_fewer_durations:
  assumes "chronological (heartbeats wt)" and "chronological (heartbeats wp)"
    and "0 < t1" and "t1 < t2"
  shows "duration_count i (calc_durations_top i t2 wt) (Some d)
           \<le> duration_count i (calc_durations_top i t1 wt) (Some d)
         \<and> duration_count i (snd (calc_durations_pkg i t2 wp)) d
           \<le> duration_count i (snd (calc_durations_pkg i t1 wp)) d"
  using assms(4) by (simp add: duration_count_top duration_count_pkg closes_mono)

lemma chronological_sample: "chronological (heartbeats sample_world)"
  by (simp add: heartbeats_sample_world)

text \<open>
  C5 at the sample world, for 2024-01-01: three durations with timeout 900, two with 1800.
\<close>

theorem longer_timeout_fewer_durations_witness:
  "chronological (heartbeats (sample_world :: world_top))
   \<and> chronological (heartbeats (sample_world :: world_pkg))
   \<and> (0::int) < 900 \<and> (900::int) < 1800
   \<and> duration_count 0 (calc_durations_top 0 1800 sample_world) (Some (Date 2024 1 1)) = 2
   \<and> duration_count 0 (calc_durations_top 0 900 sample_world) (Some (Date 2024 1 1)) = 3
   \<and> duration_count 0 (snd (calc_durations_pkg 0 1800 sample_world)) (Date 2024 1 1)
       \<le> duration_count 0 (snd (calc_durations_pkg 0 900 sample_world)) (Date 2024 1 1)"
proof -
  have 1: "chronological (heartbeats (sample_world :: world_top))"
    and 2: "chronological (heartbeats (sample_world :: world_pkg))"
    by (rule chronological_sample)+
  have 3: "(0::int) < 900" and 4: "(900::int) < 1800" by simp_all
  have 5: "duration_count 0 (calc_durations_top 0 1800 sample_world) (Some (Date 2024 1 1)) = 2"
    by (simp add: duration_count_top heartbeats_sample_world)
  have 6: "duration_count 0 (calc_durations_top 0 900 sample_world) (Some (Date 2024 1 1)) = 3"
    by (simp add: duration_count_top heartbeats_sample_world)
  show ?thesis
    using longer_timeout_fewer_durations[OF 1 2 3 4, of 0 "Date 2024 1 1"] 1 2 5 6
    by simp
qed

section \<open>Order of the durations of a date\<close>

lemma run_from_trans:
  "event_le (c1, d1, s1) (c2, d2, s2) \<Longrightarrow> run_from (c2, d2, s2) r \<Longrightarrow> run_from (c1, d1, s1) r"
  by (cases r) (auto dest: date_lt_trans)

lemma run_from_before:
  "run_from (c2, d2, s2) r \<Longrightarrow> event_le (c1, d1, s1) (c2, d2, s2) \<Longrightarrow> run_before (c, d1, s, s1) r"
  by (cases r) (auto dest: date_lt_trans)

lemma merge_runs_ordered:
  "chronological evs \<Longrightarrow>
   sorted_wrt run_before (merge_runs t evs)
   \<and> (\<forall>ev es. evs = ev # es \<longrightarrow> (\<forall>r \<in> set (merge_runs t evs). run_from ev r))"
proof (induction t evs rule: merge_runs.induct)
  case (1 t)
  show ?case by simp
next
  case (2 t c d s)
  show ?case by simp
next
  case (3 t c d s c' d' s' es)
  let ?M = "merge_runs t ((c', d', s') # es)"
  from "3.prems" have le: "event_le (c, d, s) (c', d', s')" and chr: "chronological ((c', d', s') # es)"
    by simp_all
  have IH1: "sorted_wrt run_before ?M" and IH2: "\<forall>r \<in> set ?M. run_from (c', d', s') r"
    using 3 chr by (auto simp del: merge_runs.simps)
  obtain e rs where M: "?M = (c', d', s', e) # rs"
    using merge_runs_hd[of t c' d' s' es] by auto
  show ?case
  proof (cases "c' = c \<and> d' = d \<and> s' \<le> s + t")
    case True
    then have eq: "merge_runs t ((c, d, s) # (c', d', s') # es) = (c, d, s, e) # rs"
      using M by simp
    have a: "\<forall>y \<in> set rs. run_before (c, d, s, e) y"
      using IH1 True unfolding M by auto
    have b: "sorted_wrt run_before rs" using IH1 unfolding M by simp
    have c: "run_from (c, d, s) (c, d, s, e)"
      using IH2 le True unfolding M by auto
    have d: "\<forall>r \<in> set rs. run_from (c, d, s) r"
      using IH2 le unfolding M by (auto intro: run_from_trans)
    show ?thesis unfolding eq using a b c d by simp
  next
    case False
    then have eq: "merge_runs t ((c, d, s) # (c', d', s') # es) = (c, d, s, s) # ?M"
      by (rule merge_runs_break)
    have a: "\<forall>y \<in> set ?M. run_before (c, d, s, s) y"
      using IH2 le by (auto intro: run_from_before)
    have d: "\<forall>r \<in> set ?M. run_from (c, d, s) r"
      using IH2 le by (auto intro: run_from_trans)
    show ?thesis unfolding eq using a IH1 d by simp
  qed
qed

lemma sorted_wrt_butlast: "sorted_wrt P xs \<Longrightarrow> sorted_wrt P (butlast xs)"
  by (induction xs) (auto dest: in_set_butlastD)

lemma closed_runs_end_to_start:
  assumes "sorted_wrt run_before rs" and "\<forall>r \<in> set rs. run_from ev r"
  shows "end_to_start (map run_duration (filter (\<lambda>r. run_date r = d) rs))
         \<and> starts_sorted (map run_duration (filter (\<lambda>r. run_date r = d) rs))"
  using assms
proof (induction rs)
  case Nil
  show ?case by (simp add: end_to_start_def starts_sorted_def)
next
  case (Cons r rs)
  obtain c d' s e where r: "r = (c, d', s, e)" by (cases r) auto
  from Cons.prems have se: "s \<le> e" by (cases ev) (auto simp: r)
  have later: "\<forall>y \<in> set rs. run_date y = d' \<longrightarrow> ends_by_start (c, s, e - s) (run_duration y)
      \<and> s \<le> fst (snd (run_duration y))"
  proof (intro ballI impI)
    fix y assume y: "y \<in> set rs" and dy: "run_date y = d'"
    obtain c2 d2 s2 e2 where yy: "y = (c2, d2, s2, e2)" by (cases y) auto
    from Cons.prems(1) y have "run_before r y" by simp
    then show "ends_by_start (c, s, e - s) (run_duration y) \<and> s \<le> fst (snd (run_duration y))"
      using dy se by (auto simp: r yy)
  qed
  have IH: "end_to_start (map run_duration (filter (\<lambda>r. run_date r = d) rs))
         \<and> starts_sorted (map run_duration (filter (\<lambda>r. run_date r = d) rs))"
    using Cons by simp
  show ?case
  proof (cases "d' = d")
    case True
    then show ?thesis using IH later
      by (auto simp: r end_to_start_def starts_sorted_def split: prod.splits)
  next
    case False
    then show ?thesis using IH by (simp add: r)
  qed
qed

lemma closed_durations_ordered:
  assumes "chronological evs"
  shows "end_to_start (durations_for (dict_of_runs (butlast (merge_runs t evs))) d)
         \<and> starts_sorted (durations_for (dict_of_runs (butlast (merge_runs t evs))) d)"
proof (cases evs)
  case Nil
  then show ?thesis by (simp add: dict_of_runs_def end_to_start_def starts_sorted_def)
next
  case (Cons ev es)
  have 1: "sorted_wrt run_before (butlast (merge_runs t evs))"
    using merge_runs_ordered[OF assms, of t] by (simp add: sorted_wrt_butlast)
  have 2: "\<forall>r \<in> set (butlast (merge_runs t evs)). run_from ev r"
    using merge_runs_ordered[OF assms, of t] Cons by (auto dest: in_set_butlastD)
  show ?thesis unfolding durations_for_dict_of_runs
    by (rule closed_runs_end_to_start[OF 1 2])
qed

lemma stored_durations_top:
  "stored_durations i (calc_durations_top i t w) (Some d)
   = durations_for (dict_of_runs (butlast (merge_runs t (heartbeats w)))) d"
  by (simp add: stored_durations_def durations_top_runs durations_for_some_keys)

lemma stored_durations_pkg:
  "stored_durations i (snd (calc_durations_pkg i t w)) d
   = durations_for (dict_of_runs (butlast (merge_runs t (heartbeats w)))) d"
  by (simp add: stored_durations_def snd_calc_durations_pkg)

lemma stored_durations_sample_900:
  "stored_durations 0 (calc_durations_top 0 900 sample_world) (Some (Date 2024 1 1))
     = [(''A'', 32400, 600), (''B'', 33000, 0), (''B'', 34800, 0)]"
  "stored_durations 0 (snd (calc_durations_pkg 0 900 sample_world)) (Date 2024 1 1)
     = [(''A'', 32400, 600), (''B'', 33000, 0), (''B'', 34800, 0)]"
  by (simp_all add: stored_durations_top stored_durations_pkg durations_for_dict_of_runs
        merge_runs_sample_900)

text \<open>
  C4, as stated: for a non-empty chronological stream and a timeout \<open>t > 0\<close>, the inclusive
  intervals \<open>[start, start + length]\<close> of the durations of a date do not overlap. In the
  sample world the category changes from A to B at second 33000, so the durations
  \<open>("A", 32400, 600)\<close> and \<open>("B", 33000, 0)\<close> of 2024-01-01 both contain second 33000.
\<close>

theorem non_overlap_counterexample:
  "heartbeats (sample_world :: world_top) \<noteq> []
   \<and> chronological (heartbeats (sample_world :: world_top))
   \<and> (0::int) < 900
   \<and> \<not> non_overlapping
         (stored_durations 0 (calc_durations_top 0 900 sample_world) (Some (Date 2024 1 1)))
   \<and> \<not> non_overlapping
         (stored_durations 0 (snd (calc_durations_pkg 0 900 sample_world)) (Date 2024 1 1))"
  by (simp add: stored_durations_sample_900 non_overlapping_def heartbeats_sample_world)

text \<open>
  C4, amended: for every non-empty chronological stream and every timeout \<open>t > 0\<close>, within
  each date's list \<open>start_second\<close> is non-decreasing and every duration ends no later
  than each later duration of the list starts (\<open>start + length \<le> start'\<close>): two
  intervals share at most the second at which one ends and the other starts.
\<close>

theorem durations_sorted_end_to_start:
  assumes "heartbeats wt \<noteq> []" and "chronological (heartbeats wt)"
    and "heartbeats wp \<noteq> []" and "chronological (heartbeats wp)" and "0 < t"
  shows "starts_sorted (stored_durations i (calc_durations_top i t wt) (Some d))
         \<and> end_to_start (stored_durations i (calc_durations_top i t wt) (Some d))
         \<and> starts_sorted (stored_durations i (snd (calc_durations_pkg i t wp)) d)
         \<and> end_to_start (stored_durations i (snd (calc_durations_pkg i t wp)) d)"
  using closed_durations_ordered[OF assms(2), of t d] closed_durations_ordered[OF assms(4), of t d]
  by (simp add: stored_durations_top stored_durations_pkg)

text \<open>C4, amended, at the sample world with timeout 900.\<close>

theorem durations_sorted_end_to_start_witness:
  "heartbeats (sample_world :: world_top) \<noteq> []
   \<and> chronological (heartbeats (sample_world :: world_top))
   \<and> heartbeats (sample_world :: world_pkg) \<noteq> []
   \<and> chronological (heartbeats (sample_world :: world_pkg))
   \<and> (0::int) < 900
   \<and> stored_durations 0 (calc_durations_top 0 900 sample_world) (Some (Date 2024 1 1))
       = [(''A'', 32400, 600), (''B'', 33000, 0), (''B'', 34800, 0)]
   \<and> end_to_start [(''A'', 32400, 600), (''B'', 33000, 0), (''B'', 34800, 0)]
   \<and> end_to_start
        (stored_durations 0 (snd (calc_durations_pkg 0 900 sample_world)) (Date 2024 1 1))"
proof -
  have 1: "heartbeats (sample_world :: world_top) \<noteq> []"
    and 3: "heartbeats (sample_world :: world_pkg) \<noteq> []"
    by (simp_all add: heartbeats_sample_world)
  have 2: "chronological (heartbeats (sample_world :: world_top))"
    and 4: "chronological (heartbeats (sample_world :: world_pkg))"
    by (rule chronological_sample)+
  have 5: "(0::int) < 900" by simp
  show ?thesis
    using durations_sorted_end_to_start[OF 1 2 3 4 5, of 0 "Date 2024 1 1"] 1 2 3 4
    by (simp add: stored_durations_sample_900)
qed

section \<open>One iteration of the loop of \<open>calc_durations\<close>\<close>

lemma setdefault_append_size:
  "sum_list (map (\<lambda>(k, vs). length vs) (setdefault_append k v m))
   = Suc (sum_list (map (\<lambda>(k, vs). length vs) m))"
  by (induction m) auto

lemma setdefault_append_neq: "setdefault_append k v m \<noteq> m"
  using setdefault_append_size[of k v m] by auto

lemma durations_step_pkg_eq:
  "durations_step_pkg t ((c0, d0, s0, e0), m) (c, d, s)
     = (if c = c0 \<and> d = d0 \<and> s \<le> e0 + t then ((c0, d0, s0, s), m)
        else ((c, d, s, s), setdefault_append d0 (c0, s0, e0 - s0) m))"
  by simp

lemma durations_step_top_eq:
  "durations_step_top t ((Some c0, Some d0, s0, e0), m') (c, d, s)
     = (if c = c0 \<and> d = d0 \<and> s \<le> e0 + t then ((Some c0, Some d0, s0, s), m')
        else ((Some c, Some d, s, s), setdefault_append (Some d0) (c0, s0, e0 - s0) m'))"
  by simp


text \<open>
  C3: in \<open>calc_durations\<close>, with a current run \<open>(c0, d0, s0, e0)\<close>, an event \<open>(c, d, s)\<close>
  continues the run exactly when \<open>c = c0\<close>, \<open>d = d0\<close> and \<open>s \<le> e0 + timeout\<close>: then only
  \<open>curr_end\<close> changes, to \<open>s\<close>, and the mapping is untouched. Otherwise (a category
  change, a date change, or \<open>s > e0 + timeout\<close>) the run is appended under \<open>d0\<close> as
  \<open>(c0, s0, e0 - s0)\<close> and a new run \<open>(c, d, s, s)\<close> starts; \<open>curr_end\<close> is \<open>s\<close> in both
  branches. The mapping is unchanged by the step exactly in the first case. Both files.
\<close>

theorem durations_step_continue_or_close:
  "durations_step_pkg t ((c0, d0, s0, e0), m) (c, d, s)
     = (if c = c0 \<and> d = d0 \<and> s \<le> e0 + t then ((c0, d0, s0, s), m)
        else ((c, d, s, s), setdefault_append d0 (c0, s0, e0 - s0) m))
   \<and> durations_step_top t ((Some c0, Some d0, s0, e0), m') (c, d, s)
     = (if c = c0 \<and> d = d0 \<and> s \<le> e0 + t then ((Some c0, Some d0, s0, s), m')
        else ((Some c, Some d, s, s), setdefault_append (Some d0) (c0, s0, e0 - s0) m'))
   \<and> ((snd (durations_step_pkg t ((c0, d0, s0, e0), m) (c, d, s)) = m)
        = (c = c0 \<and> d = d0 \<and> s \<le> e0 + t))
   \<and> ((snd (durations_step_top t ((Some c0, Some d0, s0, e0), m') (c, d, s)) = m')
        = (c = c0 \<and> d = d0 \<and> s \<le> e0 + t))"
proof -
  have 1: "(snd (durations_step_pkg t ((c0, d0, s0, e0), m) (c, d, s)) = m)
        = (c = c0 \<and> d = d0 \<and> s \<le> e0 + t)"
    unfolding durations_step_pkg_eq by (simp add: setdefault_append_neq)
  have 2: "(snd (durations_step_top t ((Some c0, Some d0, s0, e0), m') (c, d, s)) = m')
        = (c = c0 \<and> d = d0 \<and> s \<le> e0 + t)"
    unfolding durations_step_top_eq by (simp add: setdefault_append_neq)
  show ?thesis
    using 1 2 durations_step_pkg_eq[of t c0 d0 s0 e0 m c d s]
      durations_step_top_eq[of t c0 d0 s0 e0 m' c d s]
    by blast
qed

text \<open>
  C3 at the boundary: a gap of exactly the timeout continues the run, a gap one second
  longer closes it, and so do a category change and a date change at zero gap.
\<close>

theorem durations_step_continue_or_close_witness:
  "durations_step_pkg 900 ((''A'', Date 2024 1 1, 0, 100), []) (''A'', Date 2024 1 1, 1000)
     = ((''A'', Date 2024 1 1, 0, 1000), [])
   \<and> durations_step_pkg 900 ((''A'', Date 2024 1 1, 0, 100), []) (''A'', Date 2024 1 1, 1001)
     = ((''A'', Date 2024 1 1, 1001, 1001), [(Date 2024 1 1, [(''A'', 0, 100)])])
   \<and> durations_step_top 900 ((Some ''A'', Some (Date 2024 1 1), 0, 100), [])
        (''B'', Date 2024 1 1, 100)
     = ((Some ''B'', Some (Date 2024 1 1), 100, 100), [(Some (Date 2024 1 1), [(''A'', 0, 100)])])
   \<and> durations_step_top 900 ((Some ''A'', Some (Date 2024 1 1), 0, 100), [])
        (''A'', Date 2024 1 2, 100)
     = ((Some ''A'', Some (Date 2024 1 2), 100, 100), [(Some (Date 2024 1 1), [(''A'', 0, 100)])])"
proof -
  note a = durations_step_continue_or_close[of 900 "''A''" "Date 2024 1 1" 0 100 "[]" "''A''"
      "Date 2024 1 1" 1000 "[]", THEN conjunct1]
  note b = durations_step_continue_or_close[of 900 "''A''" "Date 2024 1 1" 0 100 "[]" "''A''"
      "Date 2024 1 1" 1001 "[]", THEN conjunct1]
  note c = durations_step_continue_or_close[of 900 "''A''" "Date 2024 1 1" 0 100 "[]" "''B''"
      "Date 2024 1 1" 100 "[]", THEN conjunct2, THEN conjunct1]
  note d = durations_step_continue_or_close[of 900 "''A''" "Date 2024 1 1" 0 100 "[]" "''A''"
      "Date 2024 1 2" 100 "[]", THEN conjunct2, THEN conjunct1]
  have a': "durations_step_pkg 900 ((''A'', Date 2024 1 1, 0, 100), []) (''A'', Date 2024 1 1, 1000)
     = ((''A'', Date 2024 1 1, 0, 1000), [])"
    unfolding a by simp
  have b': "durations_step_pkg 900 ((''A'', Date 2024 1 1, 0, 100), []) (''A'', Date 2024 1 1, 1001)
     = ((''A'', Date 2024 1 1, 1001, 1001), [(Date 2024 1 1, [(''A'', 0, 100)])])"
    unfolding b by simp
  have c': "durations_step_top 900 ((Some ''A'', Some (Date 2024 1 1), 0, 100), [])
        (''B'', Date 2024 1 1, 100)
     = ((Some ''B'', Some (Date 2024 1 1), 100, 100), [(Some (Date 2024 1 1), [(''A'', 0, 100)])])"
    unfolding c by simp
  have d': "durations_step_top 900 ((Some ''A'', Some (Date 2024 1 1), 0, 100), [])
        (''A'', Date 2024 1 2, 100)
     = ((Some ''A'', Some (Date 2024 1 2), 100, 100), [(Some (Date 2024 1 1), [(''A'', 0, 100)])])"
    unfolding d by simp
  show ?thesis using a' b' c' d' by blast
qed

section \<open>Slices of a row\<close>

lemma adjust_index_nonneg: "0 \<le> i \<Longrightarrow> adjust_index i n = min (nat i) n"
  unfolding adjust_index_def min_def by auto

lemma length_slice_add_one [simp]: "length (slice_add_one row a b) = length row"
  by (simp add: slice_add_one_def Let_def)

lemma slice_nth:
  assumes "j < length row"
  shows "(take lo row @ map f (take (hi - lo) (drop lo row)) @ drop (max lo hi) row) ! j
         = (if lo \<le> j \<and> j < hi then f (row ! j) else row ! j)"
proof (cases "j < lo")
  case True
  then show ?thesis using assms by (simp add: nth_append)
next
  case False
  then have lo: "lo \<le> j" "lo \<le> length row" using assms by simp_all
  then have len1: "length (take lo row) = lo" by simp
  have step1: "(take lo row @ map f (take (hi - lo) (drop lo row)) @ drop (max lo hi) row) ! j
      = (map f (take (hi - lo) (drop lo row)) @ drop (max lo hi) row) ! (j - lo)"
    using lo(1) len1 by (simp add: nth_append)
  show ?thesis
  proof (cases "j < hi")
    case True
    then have in2: "j - lo < length (map f (take (hi - lo) (drop lo row)))"
      using lo assms by (simp, arith)
    have "(map f (take (hi - lo) (drop lo row)) @ drop (max lo hi) row) ! (j - lo)
          = map f (take (hi - lo) (drop lo row)) ! (j - lo)"
      using in2 by (simp only: nth_append if_True)
    also have "\<dots> = f (row ! j)"
    proof -
      have a: "j - lo < hi - lo" using True lo by arith
      have b: "j - lo < length (take (hi - lo) (drop lo row))" using in2 by simp
      have "map f (take (hi - lo) (drop lo row)) ! (j - lo)
            = f (take (hi - lo) (drop lo row) ! (j - lo))"
        using b by (rule nth_map)
      also have "take (hi - lo) (drop lo row) ! (j - lo) = drop lo row ! (j - lo)"
        using a by (rule nth_take)
      also have "drop lo row ! (j - lo) = row ! (lo + (j - lo))"
        using lo(2) by (rule nth_drop)
      also have "lo + (j - lo) = j" using lo(1) by simp
      finally show ?thesis .
    qed
    finally show ?thesis using step1 True lo by simp
  next
    case False
    then have hi: "hi \<le> j" by simp
    have len2: "length (map f (take (hi - lo) (drop lo row))) = hi - lo"
      using hi lo assms by simp
    have mx: "max lo hi \<le> j" using lo hi by simp
    have nl: "\<not> j - lo < length (map f (take (hi - lo) (drop lo row)))"
      unfolding len2 using hi by arith
    have "(map f (take (hi - lo) (drop lo row)) @ drop (max lo hi) row) ! (j - lo)
          = drop (max lo hi) row ! (j - lo - length (map f (take (hi - lo) (drop lo row))))"
      using nl by (simp only: nth_append if_False)
    also have "\<dots> = drop (max lo hi) row ! (j - lo - (hi - lo))"
      unfolding len2 ..
    also have "\<dots> = row ! (max lo hi + (j - lo - (hi - lo)))"
      using assms mx by (intro nth_drop) simp
    also have "max lo hi + (j - lo - (hi - lo)) = j"
      using lo hi by (simp add: max_def)
    finally show ?thesis using step1 False by simp
  qed
qed

lemma slice_add_one_nth:
  assumes "0 \<le> a" and "0 \<le> b" and "j < length row"
  shows "slice_add_one row a b ! j = (if a \<le> int j \<and> int j < b then row ! j + 1 else row ! j)"
proof -
  have "slice_add_one row a b ! j
        = (if min (nat a) (length row) \<le> j \<and> j < min (nat b) (length row)
           then row ! j + 1 else row ! j)"
    unfolding slice_add_one_def Let_def adjust_index_nonneg[OF assms(1)]
      adjust_index_nonneg[OF assms(2)]
    by (rule slice_nth[OF assms(3)])
  also have "\<dots> = (if a \<le> int j \<and> int j < b then row ! j + 1 else row ! j)"
    using assms by (auto simp: min_def)
  finally show ?thesis .
qed

lemma length_row_slice_add_one [simp]: "length (row_slice_add_one m r a b) = length m"
  by (simp add: row_slice_add_one_def)

lemma row_slice_add_one_nth:
  assumes "0 \<le> a" and "0 \<le> b" and "r < length m" and "j < length (m ! r)"
  shows "row_slice_add_one m r' a b ! r ! j
         = (if r = r' \<and> a \<le> int j \<and> int j < b then m ! r ! j + 1 else m ! r ! j)"
proof (cases "r = r'")
  case True
  then have "row_slice_add_one m r' a b ! r = slice_add_one (m ! r) a b"
    using assms(3) by (simp add: row_slice_add_one_def)
  then show ?thesis using True slice_add_one_nth[OF assms(1) assms(2) assms(4)] by simp
next
  case False
  then show ?thesis by (simp add: row_slice_add_one_def)
qed

lemma counts_step_pkg_eq:
  "counts_step_pkg t ((d0, s0, e0), m) (c, d, s)
     = (if d = d0 \<and> s \<le> e0 + t then ((d0, s0, s), m)
        else ((d, s, s), row_slice_add_one m (weekday d0) s0 (e0 + 1)))"
  by simp

lemma counts_step_top_eq:
  "counts_step_top t ((Some d0, s0, e0), m) (c, d, s)
     = (if d = d0 \<and> s \<le> e0 + t then ((Some d0, s0, s), m)
        else ((Some d, s, s), row_slice_add_one m (weekday d0) s0 (e0 + 1)))"
  by simp

section \<open>One iteration of the loop of \<open>calc_duration_counts\<close>\<close>

text \<open>
  What one iteration does to the cells the matrix has. With a current run
  \<open>(d0, s0, e0)\<close> whose seconds are not negative, an event \<open>(c, d, s)\<close> extends the run
  exactly when \<open>d = d0\<close> and \<open>s \<le> e0 + timeout\<close>, whatever the category \<open>c\<close>. Otherwise
  the run is closed: in row \<open>weekday d0\<close> every existing cell whose column lies in
  \<open>s0..e0\<close> is incremented by 1 (in 16-bit arithmetic in the package file) and every
  other cell is left as it was. The row has no column 86399, so this says nothing of
  that second.
\<close>

lemma counts_step_cells_in_range:
  assumes "0 \<le> s0" and "0 \<le> e0"
  shows
    "counts_step_pkg t ((d0, s0, e0), mp) (c, d, s)
       = (if d = d0 \<and> s \<le> e0 + t then ((d0, s0, s), mp)
          else ((d, s, s), row_slice_add_one mp (weekday d0) s0 (e0 + 1)))
     \<and> counts_step_top t ((Some d0, s0, e0), mt) (c, d, s)
       = (if d = d0 \<and> s \<le> e0 + t then ((Some d0, s0, s), mt)
          else ((Some d, s, s), row_slice_add_one mt (weekday d0) s0 (e0 + 1)))
     \<and> counts_step_pkg t ((d0, s0, e0), mp) (c, d, s)
       = counts_step_pkg t ((d0, s0, e0), mp) (c', d, s)
     \<and> counts_step_top t ((Some d0, s0, e0), mt) (c, d, s)
       = counts_step_top t ((Some d0, s0, e0), mt) (c', d, s)
     \<and> (\<forall>r j. r < length mp \<longrightarrow> j < length (mp ! r) \<longrightarrow>
          row_slice_add_one mp (weekday d0) s0 (e0 + 1) ! r ! j
          = (if r = weekday d0 \<and> s0 \<le> int j \<and> int j \<le> e0 then mp ! r ! j + 1 else mp ! r ! j))
     \<and> (\<forall>r j. r < length mt \<longrightarrow> j < length (mt ! r) \<longrightarrow>
          row_slice_add_one mt (weekday d0) s0 (e0 + 1) ! r ! j
          = (if r = weekday d0 \<and> s0 \<le> int j \<and> int j \<le> e0 then mt ! r ! j + 1 else mt ! r ! j))"
proof -
  have e1: "0 \<le> e0 + 1" using assms(2) by simp
  have 5: "\<forall>r j. r < length mp \<longrightarrow> j < length (mp ! r) \<longrightarrow>
          row_slice_add_one mp (weekday d0) s0 (e0 + 1) ! r ! j
          = (if r = weekday d0 \<and> s0 \<le> int j \<and> int j \<le> e0 then mp ! r ! j + 1 else mp ! r ! j)"
    using row_slice_add_one_nth[OF assms(1) e1, of _ mp _ "weekday d0"] by simp
  have 6: "\<forall>r j. r < length mt \<longrightarrow> j < length (mt ! r) \<longrightarrow>
          row_slice_add_one mt (weekday d0) s0 (e0 + 1) ! r ! j
          = (if r = weekday d0 \<and> s0 \<le> int j \<and> int j \<le> e0 then mt ! r ! j + 1 else mt ! r ! j)"
    using row_slice_add_one_nth[OF assms(1) e1, of _ mt _ "weekday d0"] by simp
  have 3: "counts_step_pkg t ((d0, s0, e0), mp) (c, d, s)
       = counts_step_pkg t ((d0, s0, e0), mp) (c', d, s)"
    unfolding counts_step_pkg_eq ..
  have 4: "counts_step_top t ((Some d0, s0, e0), mt) (c, d, s)
       = counts_step_top t ((Some d0, s0, e0), mt) (c', d, s)"
    unfolding counts_step_top_eq ..
  show ?thesis
    using counts_step_pkg_eq[of t d0 s0 e0 mp c d s] counts_step_top_eq[of t d0 s0 e0 mt c d s]
      3 4 5 6
    by blast
qed

lemma weekday_2024_01_01: "weekday (Date 2024 1 1) = 0"
  by (simp add: weekday_def days_before_year_def days_before_month_def is_leap_def)

lemma weekday_lt_7: "weekday d < 7"
  by (simp add: weekday_def)


lemma zeros_cell: "r < rows \<Longrightarrow> j < cols \<Longrightarrow> zeros rows cols ! r ! j = 0"
  by (simp add: zeros_def)

lemma length_zeros [simp]: "length (zeros rows cols) = rows"
  by (simp add: zeros_def)

lemma length_zeros_row [simp]: "r < rows \<Longrightarrow> length (zeros rows cols ! r) = cols"
  by (simp add: zeros_def)

text \<open>
  On the matrix of zeros: a category change 10 seconds later extends the run; a gap of
  901 seconds closes it and increments the cells of seconds 10 to 20 of Monday's row.
\<close>

lemma counts_step_cells_in_range_example:
  "(0::int) \<le> 10 \<and> (0::int) \<le> 20
   \<and> counts_step_pkg 900 ((Date 2024 1 1, 10, 20), zeros 7 86399) (''B'', Date 2024 1 1, 30)
       = ((Date 2024 1 1, 10, 30), zeros 7 86399)
   \<and> counts_step_top 900 ((Some (Date 2024 1 1), 10, 20), zeros 7 86399) (''A'', Date 2024 1 1, 921)
       = ((Some (Date 2024 1 1), 921, 921),
          row_slice_add_one (zeros 7 86399) (weekday (Date 2024 1 1)) 10 21)
   \<and> row_slice_add_one (zeros 7 86399 :: int list list) (weekday (Date 2024 1 1)) 10 21 ! 0 ! 20 = 1
   \<and> row_slice_add_one (zeros 7 86399 :: int list list) (weekday (Date 2024 1 1)) 10 21 ! 0 ! 21 = 0
   \<and> row_slice_add_one (zeros 7 86399 :: 16 word list list) (weekday (Date 2024 1 1)) 10 21 ! 0 ! 10
       = 1
   \<and> row_slice_add_one (zeros 7 86399 :: 16 word list list) (weekday (Date 2024 1 1)) 10 21 ! 1 ! 10
       = 0"
proof -
  have h1: "(0::int) \<le> 10" and h2: "(0::int) \<le> 20" by simp_all
  note th = counts_step_cells_in_range[OF h1 h2, of 900 "Date 2024 1 1"]
  have a: "counts_step_pkg 900 ((Date 2024 1 1, 10, 20), zeros 7 86399) (''B'', Date 2024 1 1, 30)
       = ((Date 2024 1 1, 10, 30), zeros 7 86399)"
    using th[of "zeros 7 86399" "''B''" "Date 2024 1 1" 30, THEN conjunct1] by simp
  have b: "counts_step_top 900 ((Some (Date 2024 1 1), 10, 20), zeros 7 86399)
             (''A'', Date 2024 1 1, 921)
       = ((Some (Date 2024 1 1), 921, 921),
          row_slice_add_one (zeros 7 86399) (weekday (Date 2024 1 1)) 10 21)"
    using th[of _ "''A''" "Date 2024 1 1" 921 "zeros 7 86399", THEN conjunct2, THEN conjunct1]
    by simp
  have cells_t: "\<forall>r j. r < length (zeros 7 86399 :: int list list)
        \<longrightarrow> j < length ((zeros 7 86399 :: int list list) ! r) \<longrightarrow>
          row_slice_add_one (zeros 7 86399 :: int list list) (weekday (Date 2024 1 1)) 10 (20 + 1) ! r ! j
          = (if r = weekday (Date 2024 1 1) \<and> 10 \<le> int j \<and> int j \<le> 20
             then (zeros 7 86399 :: int list list) ! r ! j + 1 else zeros 7 86399 ! r ! j)"
    using th[of "[]" "''A''" "Date 2024 1 1" 0 "zeros 7 86399"] by blast
  have cells_p: "\<forall>r j. r < length (zeros 7 86399 :: 16 word list list)
        \<longrightarrow> j < length ((zeros 7 86399 :: 16 word list list) ! r) \<longrightarrow>
          row_slice_add_one (zeros 7 86399 :: 16 word list list) (weekday (Date 2024 1 1)) 10 (20 + 1) ! r ! j
          = (if r = weekday (Date 2024 1 1) \<and> 10 \<le> int j \<and> int j \<le> 20
             then (zeros 7 86399 :: 16 word list list) ! r ! j + 1 else zeros 7 86399 ! r ! j)"
    using th[of "zeros 7 86399" "''A''" "Date 2024 1 1" 0 "[]"] by blast
  have c: "row_slice_add_one (zeros 7 86399 :: int list list) (weekday (Date 2024 1 1)) 10 21 ! 0 ! 20 = 1"
    using cells_t[rule_format, of 0 20] by (simp add: weekday_2024_01_01 zeros_cell)
  have d: "row_slice_add_one (zeros 7 86399 :: int list list) (weekday (Date 2024 1 1)) 10 21 ! 0 ! 21 = 0"
    using cells_t[rule_format, of 0 21] by (simp add: weekday_2024_01_01 zeros_cell)
  have e: "row_slice_add_one (zeros 7 86399 :: 16 word list list) (weekday (Date 2024 1 1)) 10 21 ! 0 ! 10 = 1"
    using cells_p[rule_format, of 0 10] by (simp add: weekday_2024_01_01 zeros_cell)
  have f: "row_slice_add_one (zeros 7 86399 :: 16 word list list) (weekday (Date 2024 1 1)) 10 21 ! 1 ! 10 = 0"
    using cells_p[rule_format, of 1 10] by (simp add: weekday_2024_01_01 zeros_cell)
  show ?thesis using a b c d e f by simp
qed

section \<open>The last second of the day\<close>

lemma heartbeats_midnight_world:
  "heartbeats midnight_world = [(''A'', Date 2024 1 1, 86399), (''A'', Date 2024 1 2, 0)]"
  by (simp add: heartbeats_def midnight_world_def add_hb_def new_world_def mk_datetime_def
        SECS_IN_HOUR_eq SECS_IN_MIN_def)

lemma slice_add_one_empty:
  "adjust_index b (length row) \<le> adjust_index a (length row) \<Longrightarrow> slice_add_one row a b = row"
  by (simp add: slice_add_one_def Let_def max_def)

lemma slice_add_one_last_second:
  "length row = 86399 \<Longrightarrow> slice_add_one row 86399 86400 = row"
  by (rule slice_add_one_empty) (simp add: adjust_index_def)

lemma row_slice_add_one_last_second:
  "row_slice_add_one (zeros 7 86399) r 86399 86400 = zeros 7 86399"
proof (cases "r < 7")
  case True
  then have eq: "slice_add_one (zeros 7 86399 ! r) 86399 86400 = zeros 7 86399 ! r"
    by (intro slice_add_one_last_second) simp
  show ?thesis by (simp only: row_slice_add_one_def eq list_update_id)
next
  case False
  then have "length (zeros 7 86399 :: 'a list list) \<le> r" by simp
  then show ?thesis unfolding row_slice_add_one_def by (rule list_update_beyond)
qed

lemma self_duration_counts_set [simp]:
  "self_duration_counts i (set_duration_counts i m w) = Some m"
  by (simp add: self_duration_counts_def set_duration_counts_def)

lemma matrix_sum_zeros: "matrix_sum (zeros rows cols) = 0"
  by (simp add: matrix_sum_def zeros_def sum_list_replicate)

lemma matrix_sum16_zeros: "matrix_sum16 (zeros rows cols) = 0"
  by (simp add: matrix_sum16_def zeros_def sum_list_replicate)

lemma matrix_dims: "nat DAYS_IN_WEEK = 7" "nat (SECS_IN_DAY - 1) = 86399"
  by (simp_all add: DAYS_IN_WEEK_def SECS_IN_DAY_eq)

text \<open>
  The matrix \<open>calc_duration_counts\<close> builds is the matrix of the runs of the stream,
  merged by date and gap alone, except the last one: the runs it counts are the closed
  ones.
\<close>

lemma occupancy_runs_hd: "\<exists>e rs. occupancy_runs t ((c, d, s) # es) = (d, s, e) # rs"
  by (induction t "(c, d, s) # es" arbitrary: c d s es rule: occupancy_runs.induct)
     (auto split: list.splits)

lemma restart_occ_occupancy_runs:
  "restart_occ s (occupancy_runs t ((c, d, s) # es)) = occupancy_runs t ((c, d, s) # es)"
  using occupancy_runs_hd[of t c d s es] by auto

lemma restart_occ_twice: "restart_occ s (restart_occ s' rs) = restart_occ s rs"
  by (cases rs) auto

lemma occupancy_runs_continue:
  "d' = d \<Longrightarrow> s' \<le> s + t \<Longrightarrow>
   occupancy_runs t ((c, d, s) # (c', d', s') # es)
   = restart_occ s (occupancy_runs t ((c', d', s') # es))"
  using occupancy_runs_hd[of t c' d' s' es] by auto

lemma occupancy_runs_break:
  "\<not> (d' = d \<and> s' \<le> s + t) \<Longrightarrow>
   occupancy_runs t ((c, d, s) # (c', d', s') # es)
   = (d, s, s) # occupancy_runs t ((c', d', s') # es)"
  by auto

lemma occupancy_runs_nonempty: "occupancy_runs t (ev # es) \<noteq> []"
  using occupancy_runs_hd[of t "fst ev" "fst (snd ev)" "snd (snd ev)" es] by auto

lemma counts_loop_pkg_runs:
  "snd (foldl (counts_step_pkg t) ((d, s, e), m) evs)
   = foldl count_run m (butlast (restart_occ s (occupancy_runs t ((c, d, e) # evs))))"
proof (induction evs arbitrary: c d s e m)
  case Nil
  show ?case by simp
next
  case (Cons ev evs)
  obtain h hd sec where ev: "ev = (h, hd, sec)" by (cases ev) auto
  show ?case
  proof (cases "hd = d \<and> sec \<le> e + t")
    case True
    then have "occupancy_runs t ((c, d, e) # ev # evs)
               = restart_occ e (occupancy_runs t ((h, d, sec) # evs))"
      unfolding ev using occupancy_runs_continue[of d d sec e t c h evs] by simp
    then show ?thesis using True Cons.IH[of d s sec m h]
      by (simp add: ev restart_occ_twice)
  next
    case False
    then have mr: "occupancy_runs t ((c, d, e) # ev # evs)
                   = (d, e, e) # occupancy_runs t ((h, hd, sec) # evs)"
      unfolding ev by (rule occupancy_runs_break)
    have ne: "occupancy_runs t ((h, hd, sec) # evs) \<noteq> []" by (rule occupancy_runs_nonempty)
    from False have st: "counts_step_pkg t ((d, s, e), m) ev
        = ((hd, sec, sec), row_slice_add_one m (weekday d) s (e + 1))"
      unfolding ev by auto
    show ?thesis
      using Cons.IH[of hd sec sec "row_slice_add_one m (weekday d) s (e + 1)" h] ne
      by (simp add: st mr restart_occ_occupancy_runs)
  qed
qed

lemma counts_loop_top_runs:
  "snd (foldl (counts_step_top t) ((Some d, s, e), m) evs)
   = foldl count_run m (butlast (restart_occ s (occupancy_runs t ((c, d, e) # evs))))"
proof (induction evs arbitrary: c d s e m)
  case Nil
  show ?case by simp
next
  case (Cons ev evs)
  obtain h hd sec where ev: "ev = (h, hd, sec)" by (cases ev) auto
  show ?case
  proof (cases "hd = d \<and> sec \<le> e + t")
    case True
    then have "occupancy_runs t ((c, d, e) # ev # evs)
               = restart_occ e (occupancy_runs t ((h, d, sec) # evs))"
      unfolding ev using occupancy_runs_continue[of d d sec e t c h evs] by simp
    then show ?thesis using True Cons.IH[of d s sec m h]
      by (simp add: ev restart_occ_twice)
  next
    case False
    then have mr: "occupancy_runs t ((c, d, e) # ev # evs)
                   = (d, e, e) # occupancy_runs t ((h, hd, sec) # evs)"
      unfolding ev by (rule occupancy_runs_break)
    have ne: "occupancy_runs t ((h, hd, sec) # evs) \<noteq> []" by (rule occupancy_runs_nonempty)
    from False have st: "counts_step_top t ((Some d, s, e), m) ev
        = ((Some hd, sec, sec), row_slice_add_one m (weekday d) s (e + 1))"
      unfolding ev by auto
    show ?thesis
      using Cons.IH[of hd sec sec "row_slice_add_one m (weekday d) s (e + 1)" h] ne
      by (simp add: st mr restart_occ_occupancy_runs)
  qed
qed

lemma counts_top_runs:
  "self_duration_counts i (calc_duration_counts_top i t w)
   = Some (matrix_of_runs (butlast (occupancy_runs t (heartbeats w))))"
proof (cases "heartbeats w")
  case Nil
  then show ?thesis by (simp add: calc_duration_counts_top_def matrix_of_runs_def)
next
  case (Cons ev rest)
  obtain c d s where ev: "ev = (c, d, s)" by (cases ev) auto
  have first: "foldl (counts_step_top t) ((None, 0, 0), m) ((c, d, s) # rest)
        = foldl (counts_step_top t) ((Some d, s, s), m) rest" for m
    by simp
  show ?thesis
    unfolding calc_duration_counts_top_def self_duration_counts_set Cons ev first
      counts_loop_top_runs[of t d s s _ rest c] restart_occ_occupancy_runs matrix_of_runs_def ..
qed

lemma counts_pkg_runs:
  assumes "heartbeats w \<noteq> []"
  shows "calc_duration_counts_pkg i t w
   = (None, set_duration_counts i (matrix_of_runs (butlast (occupancy_runs t (heartbeats w)))) w)"
proof -
  obtain c d s rest where hb: "heartbeats w = (c, d, s) # rest"
    using assms by (cases "heartbeats w") auto
  show ?thesis
    by (simp add: calc_duration_counts_pkg_def hb Let_def
          counts_loop_pkg_runs[of t d s s _ rest c] restart_occ_occupancy_runs matrix_of_runs_def)
qed

text \<open>
  C6: the sum of all cells of the occupancy matrix should equal the sum of the inclusive
  lengths \<open>end - start + 1\<close> of the closed runs, for events with seconds in \<open>0..86399\<close>.
  The matrix has \<open>SECS_IN_DAY - 1 = 86399\<close> columns, seconds 0 to 86398. An event at
  23:59:59 followed by one the next day gives the closed run \<open>[86399, 86399]\<close>, of
  inclusive length 1; the slice \<open>86399:86400\<close> of a row of 86399 cells is empty, so
  the matrix stays zero and its sum is 0, in both files.
\<close>

theorem last_second_not_counted:
  "heartbeats (midnight_world :: world_top)
     = [(''A'', Date 2024 1 1, 86399), (''A'', Date 2024 1 2, 0)]
   \<and> butlast (occupancy_runs 900 (heartbeats (midnight_world :: world_top)))
     = [(Date 2024 1 1, 86399, 86399)]
   \<and> inclusive_length_sum (butlast (occupancy_runs 900 (heartbeats (midnight_world :: world_top))))
     = 1
   \<and> self_duration_counts 0 (calc_duration_counts_top 0 900 midnight_world)
     = Some (zeros 7 86399)
   \<and> matrix_sum (zeros 7 86399) = 0
   \<and> calc_duration_counts_pkg 0 900 midnight_world
     = (None, set_duration_counts 0 (zeros 7 86399) midnight_world)
   \<and> matrix_sum16 (zeros 7 86399) = 0"
proof -
  have 1: "butlast (occupancy_runs 900 (heartbeats (midnight_world :: world_top)))
     = [(Date 2024 1 1, 86399, 86399)]"
    by (simp add: heartbeats_midnight_world)
  have 2: "inclusive_length_sum (butlast (occupancy_runs 900 (heartbeats (midnight_world :: world_top))))
     = 1"
    unfolding 1 by (simp add: inclusive_length_sum_def)
  have 3: "self_duration_counts 0 (calc_duration_counts_top 0 900 midnight_world)
     = Some (zeros 7 86399)"
    by (simp add: calc_duration_counts_top_def heartbeats_midnight_world matrix_dims
          row_slice_add_one_last_second)
  have 4: "calc_duration_counts_pkg 0 900 midnight_world
     = (None, set_duration_counts 0 (zeros 7 86399) midnight_world)"
    by (simp add: calc_duration_counts_pkg_def heartbeats_midnight_world matrix_dims
          row_slice_add_one_last_second)
  show ?thesis
    using 1 2 3 4 heartbeats_midnight_world[where ?'a = "date option" and ?'b = int]
      matrix_sum_zeros[of 7 86399] matrix_sum16_zeros[of 7 86399]
    by blast
qed

text \<open>
  C7: on closing a run, \<open>calc_duration_counts\<close> should increment every cell
  \<open>(weekday of the run's date, second)\<close> for \<open>second\<close> from \<open>curr_start\<close> to \<open>curr_end\<close>
  inclusive. After the single event \<open>("A", 2024-01-01 23:59:59)\<close> the current run is
  \<open>[86399, 86399]\<close> on a Monday. The event \<open>("A", 2024-01-02 00:00:00)\<close> closes it, and
  the step leaves the matrix of zeros as it was: Monday's row has 86399 cells, seconds 0
  to 86398, and none for second 86399. The first part of the claim holds: the run is
  extended exactly when the date is the same and the gap at most the timeout, whatever
  the category. Both files.
\<close>

theorem closing_run_skips_last_second:
  "foldl (counts_step_top 900) ((None, 0, 0), zeros 7 86399) [(''A'', Date 2024 1 1, 86399)]
     = ((Some (Date 2024 1 1), 86399, 86399), zeros 7 86399)
   \<and> counts_step_top 900 ((Some (Date 2024 1 1), 86399, 86399), zeros 7 86399)
         (''A'', Date 2024 1 2, 0)
     = ((Some (Date 2024 1 2), 0, 0), zeros 7 86399)
   \<and> counts_step_pkg 900 ((Date 2024 1 1, 86399, 86399), zeros 7 86399)
         (''A'', Date 2024 1 2, 0)
     = ((Date 2024 1 2, 0, 0), zeros 7 86399)
   \<and> weekday (Date 2024 1 1) = 0
   \<and> length ((zeros 7 86399 :: int list list) ! weekday (Date 2024 1 1)) = 86399
   \<and> length ((zeros 7 86399 :: 16 word list list) ! weekday (Date 2024 1 1)) = 86399
   \<and> counts_step_top t ((Some d0, s0, e0), mt) (c, d, s)
     = (if d = d0 \<and> s \<le> e0 + t then ((Some d0, s0, s), mt)
        else ((Some d, s, s), row_slice_add_one mt (weekday d0) s0 (e0 + 1)))
   \<and> counts_step_pkg t ((d0, s0, e0), mp) (c, d, s)
     = (if d = d0 \<and> s \<le> e0 + t then ((d0, s0, s), mp)
        else ((d, s, s), row_slice_add_one mp (weekday d0) s0 (e0 + 1)))"
proof -
  have 1: "foldl (counts_step_top 900) ((None, 0, 0), zeros 7 86399)
             [(''A'', Date 2024 1 1, 86399)]
     = ((Some (Date 2024 1 1), 86399, 86399), zeros 7 86399)"
    by simp
  have 2: "counts_step_top 900 ((Some (Date 2024 1 1), 86399, 86399), zeros 7 86399)
         (''A'', Date 2024 1 2, 0)
     = ((Some (Date 2024 1 2), 0, 0), zeros 7 86399)"
    unfolding counts_step_top_eq by (simp add: row_slice_add_one_last_second)
  have 3: "counts_step_pkg 900 ((Date 2024 1 1, 86399, 86399), zeros 7 86399)
         (''A'', Date 2024 1 2, 0)
     = ((Date 2024 1 2, 0, 0), zeros 7 86399)"
    unfolding counts_step_pkg_eq by (simp add: row_slice_add_one_last_second)
  have 5: "length ((zeros 7 86399 :: int list list) ! weekday (Date 2024 1 1)) = 86399"
    by (simp add: weekday_2024_01_01)
  have 6: "length ((zeros 7 86399 :: 16 word list list) ! weekday (Date 2024 1 1)) = 86399"
    by (simp add: weekday_2024_01_01)
  show ?thesis
    using 1 2 3 weekday_2024_01_01 5 6 counts_step_top_eq[of t d0 s0 e0 mt c d s]
      counts_step_pkg_eq[of t d0 s0 e0 mp c d s]
    by blast
qed

section \<open>Class-level containers\<close>

lemma zip3_append:
  assumes "length xs = length ys" and "length ys = length zs"
  shows "zip (xs @ [x]) (zip (ys @ [y]) (zs @ [z])) = zip xs (zip ys zs) @ [(x, y, z)]"
  using assms by simp

lemma heartbeats_add_hb:
  assumes "well_formed w"
  shows "heartbeats (add_hb a hb_type ts w) = heartbeats w @ [new_event hb_type ts]"
  using assms
  by (simp add: heartbeats_def add_hb_def well_formed_def new_event_def Let_def)

lemma add_hb_self_irrelevant: "add_hb a hb_type ts w = add_hb b hb_type ts w"
  by (simp add: add_hb_def)

lemma instance_attrs_add_hb: "instance_attrs (add_hb a hb_type ts w) = instance_attrs w"
  by (simp add: add_hb_def Let_def)

lemma well_formed_add_hb: "well_formed w \<Longrightarrow> well_formed (add_hb a hb_type ts w)"
  by (simp add: add_hb_def well_formed_def Let_def)

lemma hb_type_counter_add_hb:
  "hb_type_counter (class_attrs (add_hb a hb_type ts w)) x
   = hb_type_counter (class_attrs w) x + (if hb_type \<noteq> [] \<and> x = hb_type then 1 else 0)"
  by (simp add: add_hb_def Let_def)

text \<open>
  C10: the category, date and seconds lists and the frequency counter belong to the
  class, not to an instance. For any instances \<open>a\<close> and \<open>b\<close>: \<open>a.add_hb\<close> has the effect
  \<open>b.add_hb\<close> would have and touches no instance attribute; it appends one event to the
  stream every instance reads and counts the category in the one counter; and
  \<open>b.calc_durations\<close> and \<open>b.calc_duration_counts\<close>, called next, run over the stream with
  that event at its end. Both files.
\<close>

theorem containers_shared_across_instances:
  assumes "well_formed wt" and "well_formed wp"
  shows
    "add_hb a hb_type ts wt = add_hb b hb_type ts wt
     \<and> add_hb a hb_type ts wp = add_hb b hb_type ts wp
     \<and> instance_attrs (add_hb a hb_type ts wt) = instance_attrs wt
     \<and> instance_attrs (add_hb a hb_type ts wp) = instance_attrs wp
     \<and> heartbeats (add_hb a hb_type ts wt) = heartbeats wt @ [new_event hb_type ts]
     \<and> heartbeats (add_hb a hb_type ts wp) = heartbeats wp @ [new_event hb_type ts]
     \<and> hb_type_counter (class_attrs (add_hb a hb_type ts wt)) x
         = hb_type_counter (class_attrs wt) x + (if hb_type \<noteq> [] \<and> x = hb_type then 1 else 0)
     \<and> self_durations b (calc_durations_top b t (add_hb a hb_type ts wt))
         = Some (snd (foldl (durations_step_top t) ((None, None, 0, 0), [])
                   (heartbeats wt @ [new_event hb_type ts])))
     \<and> self_duration_counts b (calc_duration_counts_top b t (add_hb a hb_type ts wt))
         = Some (snd (foldl (counts_step_top t)
                   ((None, 0, 0), zeros (nat DAYS_IN_WEEK) (nat (SECS_IN_DAY - 1)))
                   (heartbeats wt @ [new_event hb_type ts])))
     \<and> calc_durations_pkg b t (add_hb a hb_type ts wp)
         = (None, set_durations b
              (dict_of_runs (butlast (merge_runs t (heartbeats wp @ [new_event hb_type ts]))))
              (add_hb a hb_type ts wp))
     \<and> fst (calc_duration_counts_pkg b t (add_hb a hb_type ts wp)) = None
     \<and> self_duration_counts b (snd (calc_duration_counts_pkg b t (add_hb a hb_type ts wp)))
         = (case heartbeats wp @ [new_event hb_type ts] of
              (c, d, s) # rest \<Rightarrow>
                Some (snd (foldl (counts_step_pkg t)
                        ((d, s, s), zeros (nat DAYS_IN_WEEK) (nat (SECS_IN_DAY - 1))) rest))
            | [] \<Rightarrow> None)"
proof -
  have ht: "heartbeats (add_hb a hb_type ts wt) = heartbeats wt @ [new_event hb_type ts]"
    by (rule heartbeats_add_hb[OF assms(1)])
  have hp: "heartbeats (add_hb a hb_type ts wp) = heartbeats wp @ [new_event hb_type ts]"
    by (rule heartbeats_add_hb[OF assms(2)])
  have 8: "self_durations b (calc_durations_top b t (add_hb a hb_type ts wt))
         = Some (snd (foldl (durations_step_top t) ((None, None, 0, 0), [])
                   (heartbeats wt @ [new_event hb_type ts])))"
    by (simp add: calc_durations_top_def ht)
  have 9: "self_duration_counts b (calc_duration_counts_top b t (add_hb a hb_type ts wt))
         = Some (snd (foldl (counts_step_top t)
                   ((None, 0, 0), zeros (nat DAYS_IN_WEEK) (nat (SECS_IN_DAY - 1)))
                   (heartbeats wt @ [new_event hb_type ts])))"
    by (simp only: calc_duration_counts_top_def ht self_duration_counts_set)
  have ne: "heartbeats (add_hb a hb_type ts wp) \<noteq> []" by (simp add: hp)
  have 10: "calc_durations_pkg b t (add_hb a hb_type ts wp)
         = (None, set_durations b
              (dict_of_runs (butlast (merge_runs t (heartbeats wp @ [new_event hb_type ts]))))
              (add_hb a hb_type ts wp))"
    using durations_pkg_runs[OF ne, of b t] by (simp only: hp)
  obtain c d s rest where cons: "heartbeats wp @ [new_event hb_type ts] = (c, d, s) # rest"
    by (cases "heartbeats wp @ [new_event hb_type ts]") auto
  have 11: "fst (calc_duration_counts_pkg b t (add_hb a hb_type ts wp)) = None"
    by (simp add: calc_duration_counts_pkg_def hp cons Let_def)
  have 12: "self_duration_counts b (snd (calc_duration_counts_pkg b t (add_hb a hb_type ts wp)))
         = (case heartbeats wp @ [new_event hb_type ts] of
              (c, d, s) # rest \<Rightarrow>
                Some (snd (foldl (counts_step_pkg t)
                        ((d, s, s), zeros (nat DAYS_IN_WEEK) (nat (SECS_IN_DAY - 1))) rest))
            | [] \<Rightarrow> None)"
    by (simp add: calc_duration_counts_pkg_def hp cons Let_def)
  show ?thesis
    using add_hb_self_irrelevant[of a hb_type ts wt b] add_hb_self_irrelevant[of a hb_type ts wp b]
      instance_attrs_add_hb[of a hb_type ts wt] instance_attrs_add_hb[of a hb_type ts wp]
      ht hp hb_type_counter_add_hb[of a hb_type ts wt x] 8 9 10 11 12
    by blast
qed


lemma well_formed_new_world: "well_formed new_world"
  by (simp add: well_formed_def new_world_def)

lemma well_formed_scenario_A: "well_formed scenario_A"
  unfolding scenario_A_def by (intro well_formed_add_hb well_formed_new_world)

lemma new_event_B: "new_event ''B'' (mk_datetime 2024 1 1 9 10 0) = (''B'', Date 2024 1 1, 33000)"
  by (simp add: new_event_def mk_datetime_def SECS_IN_HOUR_eq SECS_IN_MIN_def)

text \<open>
  C10 at scenario A: instance 0 adds a third event, of category B, and \<open>calc_durations\<close> on
  instance 1 then finds the run of A closed by it.
\<close>

theorem containers_shared_across_instances_witness:
  "well_formed (scenario_A :: world_top) \<and> well_formed (scenario_A :: world_pkg)
   \<and> self_durations 1
        (calc_durations_top 1 900 (add_hb 0 ''B'' (mk_datetime 2024 1 1 9 10 0) scenario_A))
       = Some [(Some (Date 2024 1 1), [(''A'', 32400, 600)])]
   \<and> calc_durations_pkg 1 900 (add_hb 0 ''B'' (mk_datetime 2024 1 1 9 10 0) scenario_A)
       = (None, set_durations 1 [(Date 2024 1 1, [(''A'', 32400, 600)])]
            (add_hb 0 ''B'' (mk_datetime 2024 1 1 9 10 0) scenario_A))"
proof -
  have 1: "well_formed (scenario_A :: world_top)" and 2: "well_formed (scenario_A :: world_pkg)"
    by (rule well_formed_scenario_A)+
  note th = containers_shared_across_instances[OF 1 2, of 0 "''B''"
      "mk_datetime 2024 1 1 9 10 0" 1 "[]" 900]
  have a: "self_durations 1
        (calc_durations_top 1 900 (add_hb 0 ''B'' (mk_datetime 2024 1 1 9 10 0) scenario_A))
       = Some (snd (foldl (durations_step_top 900) ((None, None, 0, 0), [])
                   (heartbeats (scenario_A :: world_top)
                    @ [new_event ''B'' (mk_datetime 2024 1 1 9 10 0)])))"
    using th by blast
  have b: "calc_durations_pkg 1 900 (add_hb 0 ''B'' (mk_datetime 2024 1 1 9 10 0) scenario_A)
       = (None, set_durations 1
              (dict_of_runs (butlast (merge_runs 900 (heartbeats (scenario_A :: world_pkg)
                 @ [new_event ''B'' (mk_datetime 2024 1 1 9 10 0)]))))
              (add_hb 0 ''B'' (mk_datetime 2024 1 1 9 10 0) scenario_A))"
    using th by blast
  have a': "self_durations 1
        (calc_durations_top 1 900 (add_hb 0 ''B'' (mk_datetime 2024 1 1 9 10 0) scenario_A))
       = Some [(Some (Date 2024 1 1), [(''A'', 32400, 600)])]"
    unfolding a by (simp add: heartbeats_scenario_A new_event_B)
  have b': "calc_durations_pkg 1 900 (add_hb 0 ''B'' (mk_datetime 2024 1 1 9 10 0) scenario_A)
       = (None, set_durations 1 [(Date 2024 1 1, [(''A'', 32400, 600)])]
            (add_hb 0 ''B'' (mk_datetime 2024 1 1 9 10 0) scenario_A))"
    unfolding b by (simp add: heartbeats_scenario_A new_event_B dict_of_runs_def)
  show ?thesis using 1 2 a' b' by blast
qed

end
